theory Spec2Isabelle
  imports Complex_Main
begin

text \<open>
  Perfect Vision, \<open>scripts/vision.js\<close>: the radii the module resolves for a vision
  source (\<open>getLightRadius\<close> and the wrapper of \<open>PointSource.prototype.initialize\<close>),
  the polygons it clips to them (\<open>computeFov\<close>), and the visibility its wrapper of
  \<open>PointSource.prototype.drawLight\<close> gives the light meshes.
\<close>

section \<open>JavaScript numbers\<close>

text \<open>
  The program computes with JavaScript numbers. A finite number is modelled by the real
  it denotes, so rounding and overflow are idealised away and the two zeros are one
  (\<open>Fin 0\<close>, which divides like \<open>+0\<close>). The special values are kept, with the
  arithmetic IEEE 754 gives them: a division by zero is \<open>PosInf\<close>, \<open>NegInf\<close> or
  \<open>NaN\<close>, never a real, and every comparison with \<open>NaN\<close> is false.
\<close>

datatype number = Fin real | PosInf | NegInf | NaN

fun n_neg :: "number \<Rightarrow> number" where
  "n_neg (Fin a) = Fin (- a)"
| "n_neg PosInf = NegInf"
| "n_neg NegInf = PosInf"
| "n_neg NaN = NaN"

fun n_add :: "number \<Rightarrow> number \<Rightarrow> number" where
  "n_add NaN b = NaN"
| "n_add a NaN = NaN"
| "n_add (Fin a) (Fin b) = Fin (a + b)"
| "n_add PosInf NegInf = NaN"
| "n_add NegInf PosInf = NaN"
| "n_add PosInf b = PosInf"
| "n_add a PosInf = PosInf"
| "n_add NegInf b = NegInf"
| "n_add a NegInf = NegInf"

definition n_sub :: "number \<Rightarrow> number \<Rightarrow> number" where
  "n_sub a b = n_add a (n_neg b)"

fun n_mul :: "number \<Rightarrow> number \<Rightarrow> number" where
  "n_mul NaN b = NaN"
| "n_mul a NaN = NaN"
| "n_mul (Fin a) (Fin b) = Fin (a * b)"
| "n_mul (Fin a) PosInf = (if a = 0 then NaN else if 0 < a then PosInf else NegInf)"
| "n_mul (Fin a) NegInf = (if a = 0 then NaN else if 0 < a then NegInf else PosInf)"
| "n_mul PosInf (Fin b) = (if b = 0 then NaN else if 0 < b then PosInf else NegInf)"
| "n_mul NegInf (Fin b) = (if b = 0 then NaN else if 0 < b then NegInf else PosInf)"
| "n_mul PosInf PosInf = PosInf"
| "n_mul PosInf NegInf = NegInf"
| "n_mul NegInf PosInf = NegInf"
| "n_mul NegInf NegInf = PosInf"

fun n_div :: "number \<Rightarrow> number \<Rightarrow> number" where
  "n_div NaN b = NaN"
| "n_div a NaN = NaN"
| "n_div (Fin a) (Fin b) =
     (if b = 0 then (if a = 0 then NaN else if 0 < a then PosInf else NegInf)
      else Fin (a / b))"
| "n_div (Fin a) PosInf = Fin 0"
| "n_div (Fin a) NegInf = Fin 0"
| "n_div PosInf (Fin b) = (if 0 \<le> b then PosInf else NegInf)"
| "n_div NegInf (Fin b) = (if 0 \<le> b then NegInf else PosInf)"
| "n_div PosInf b = NaN"
| "n_div NegInf b = NaN"

text \<open>
  The quotient of two finite numbers is exact here; a double's quotient can also overflow
  to an infinity, which this model does not show.
\<close>

text \<open>The comparisons \<open><\<close> and \<open><=\<close>; \<open>a > b\<close> is \<open>n_lt b a\<close>.\<close>

fun n_lt :: "number \<Rightarrow> number \<Rightarrow> bool" where
  "n_lt NaN b = False"
| "n_lt a NaN = False"
| "n_lt (Fin a) (Fin b) = (a < b)"
| "n_lt a NegInf = False"
| "n_lt NegInf b = True"
| "n_lt PosInf b = False"
| "n_lt a PosInf = True"

fun n_le :: "number \<Rightarrow> number \<Rightarrow> bool" where
  "n_le NaN b = False"
| "n_le a NaN = False"
| "n_le (Fin a) (Fin b) = (a \<le> b)"
| "n_le NegInf b = True"
| "n_le a PosInf = True"
| "n_le a NegInf = False"
| "n_le PosInf b = False"

text \<open>Strict equality \<open>===\<close> of two numbers: \<open>NaN\<close> equals nothing.\<close>

definition n_eq :: "number \<Rightarrow> number \<Rightarrow> bool" where
  "n_eq a b = (a \<noteq> NaN \<and> b \<noteq> NaN \<and> a = b)"

definition isNaN :: "number \<Rightarrow> bool" where
  "isNaN a = (a = NaN)"

fun Math_abs :: "number \<Rightarrow> number" where
  "Math_abs (Fin a) = Fin \<bar>a\<bar>"
| "Math_abs PosInf = PosInf"
| "Math_abs NegInf = PosInf"
| "Math_abs NaN = NaN"

fun Math_sign :: "number \<Rightarrow> number" where
  "Math_sign (Fin a) = Fin (sgn a)"
| "Math_sign PosInf = Fin 1"
| "Math_sign NegInf = Fin (- 1)"
| "Math_sign NaN = NaN"

text \<open>
  \<open>Math.max\<close> and \<open>Math.min\<close> take any number of arguments: \<open>NaN\<close> if one of them
  is, and \<open>-Infinity\<close> (\<open>Infinity\<close>) for none.
\<close>

definition max2 :: "number \<Rightarrow> number \<Rightarrow> number" where
  "max2 a b = (if a = NaN \<or> b = NaN then NaN else if n_lt a b then b else a)"

definition min2 :: "number \<Rightarrow> number \<Rightarrow> number" where
  "min2 a b = (if a = NaN \<or> b = NaN then NaN else if n_lt b a then b else a)"

fun Math_max :: "number list \<Rightarrow> number" where
  "Math_max [] = NegInf"
| "Math_max (a # as) = max2 a (Math_max as)"

fun Math_min :: "number list \<Rightarrow> number" where
  "Math_min [] = PosInf"
| "Math_min (a # as) = min2 a (Math_min as)"

text \<open>\<open>Math.hypot\<close> of two arguments: an infinite argument wins over \<open>NaN\<close>.\<close>

fun Math_hypot :: "number \<Rightarrow> number \<Rightarrow> number" where
  "Math_hypot (Fin a) (Fin b) = Fin (sqrt (a * a + b * b))"
| "Math_hypot PosInf b = PosInf"
| "Math_hypot NegInf b = PosInf"
| "Math_hypot a PosInf = PosInf"
| "Math_hypot a NegInf = PosInf"
| "Math_hypot a b = NaN"

text \<open>
  \<open>Math.clamped\<close> is the host's helper, defined there as
  \<^verbatim>\<open>Math.min(max, Math.max(x, min))\<close>.
\<close>

definition Math_clamped :: "number \<Rightarrow> number \<Rightarrow> number \<Rightarrow> number" where
  "Math_clamped x lo hi = Math_min [hi, Math_max [x, lo]]"

section \<open>The scene and the token\<close>

text \<open>\<open>canvas.dimensions\<close>: the fields the program reads. \<open>maxR\<close> may be missing.\<close>

record dimensions =
  d_distance :: number
  d_size :: number
  d_width :: number
  d_height :: number
  d_sceneWidth :: number
  d_sceneHeight :: number
  d_maxR :: "number option"

text \<open>
  The token, with the flags of its document. A flag that is not set is \<open>None\<close>. The two
  sight limits are the results of \<open>parseFloat\<close> on the token's flag and on the
  scene's (\<open>NaN\<close> when the flag is missing or not numeric, or when there is no scene).
\<close>

record token =
  t_w :: number
  t_h :: number
  t_dimSight :: number
  t_brightSight :: number
  t_visionRules :: "string option"
  t_dimVisionInDarkness :: "string option"
  t_dimVisionInDimLight :: "string option"
  t_brightVisionInDarkness :: "string option"
  t_brightVisionInDimLight :: "string option"
  t_sightLimit :: number
  t_sceneSightLimit :: number
  t_original :: bool

section \<open>getLightRadius\<close>

definition getLightRadius :: "dimensions \<Rightarrow> token \<Rightarrow> number \<Rightarrow> number" where
  "getLightRadius d tok units =
     (if n_eq units (Fin 0) then Fin 0
      else
        let u = Math_abs units;
            hw = n_div (t_w tok) (Fin 2)
        in n_mul (n_add (n_mul (n_div u (d_distance d)) (d_size d)) hw) (Math_sign units))"

section \<open>The vision rules\<close>

text \<open>
  The four rule fields as a token's flags or a preset give them; a field that is
  undefined is \<open>None\<close>.
\<close>

record preset =
  p_dimVisionInDarkness :: "string option"
  p_dimVisionInDimLight :: "string option"
  p_brightVisionInDarkness :: "string option"
  p_brightVisionInDimLight :: "string option"

text \<open>The world settings (\<open>game.settings.get\<close>), all registered with type String.\<close>

record settings =
  g_visionRules :: string
  g_dimVisionInDarkness :: string
  g_dimVisionInDimLight :: string
  g_brightVisionInDarkness :: string
  g_brightVisionInDimLight :: string

text \<open>The rules in force once every field has fallen back to the world settings.\<close>

record rules =
  dimVisionInDarkness :: string
  dimVisionInDimLight :: string
  brightVisionInDarkness :: string
  brightVisionInDimLight :: string

text \<open>
  The table \<open>presets\<close> is imported from \<open>presets.js\<close>; it is a parameter here, a
  partial map that holds whatever \<open>presets[name]\<close> finds. Reading a field of
  \<open>presets[name]\<close> when that is undefined throws a TypeError.
\<close>

datatype error = TypeError

text \<open>\<open>a || b\<close> on a value that is a string or undefined: the empty string is falsy.\<close>

definition or_else :: "string option \<Rightarrow> string \<Rightarrow> string" where
  "or_else a b = (case a of None \<Rightarrow> b | Some s \<Rightarrow> if s = [] then b else s)"

definition undefinedRules :: preset where
  "undefinedRules =
     \<lparr>p_dimVisionInDarkness = None, p_dimVisionInDimLight = None,
      p_brightVisionInDarkness = None, p_brightVisionInDimLight = None\<rparr>"

definition ruleFields :: "(string \<Rightarrow> preset option) \<Rightarrow> settings \<Rightarrow> token \<Rightarrow> error + preset" where
  "ruleFields presets g tok =
     (let visionRules = or_else (t_visionRules tok) ''default'' in
      if visionRules = ''custom'' then
        Inr \<lparr>p_dimVisionInDarkness = t_dimVisionInDarkness tok,
             p_dimVisionInDimLight = t_dimVisionInDimLight tok,
             p_brightVisionInDarkness = t_brightVisionInDarkness tok,
             p_brightVisionInDimLight = t_brightVisionInDimLight tok\<rparr>
      else
        let visionRules = (if visionRules = ''default'' then g_visionRules g else visionRules) in
        if visionRules \<noteq> ''custom'' then
          (case presets visionRules of
             None \<Rightarrow> Inl TypeError
           | Some p \<Rightarrow>
               Inr \<lparr>p_dimVisionInDarkness = p_dimVisionInDarkness p,
                    p_dimVisionInDimLight = p_dimVisionInDimLight p,
                    p_brightVisionInDarkness = p_brightVisionInDarkness p,
                    p_brightVisionInDimLight = p_brightVisionInDimLight p\<rparr>)
        else Inr undefinedRules)"

definition resolveRules :: "(string \<Rightarrow> preset option) \<Rightarrow> settings \<Rightarrow> token \<Rightarrow> error + rules" where
  "resolveRules presets g tok =
     (case ruleFields presets g tok of
        Inl e \<Rightarrow> Inl e
      | Inr f \<Rightarrow>
          Inr \<lparr>dimVisionInDarkness = or_else (p_dimVisionInDarkness f) (g_dimVisionInDarkness g),
               dimVisionInDimLight = or_else (p_dimVisionInDimLight f) (g_dimVisionInDimLight g),
               brightVisionInDarkness =
                 or_else (p_brightVisionInDarkness f) (g_brightVisionInDarkness g),
               brightVisionInDimLight =
                 or_else (p_brightVisionInDimLight f) (g_brightVisionInDimLight g)\<rparr>)"

text \<open>
  The value of the variable \<open>visionRules\<close> when the rules are looked up: the token's
  flag, or the world setting when the flag is missing, empty or \<open>default\<close>.
\<close>

definition visionRulesInForce :: "settings \<Rightarrow> token \<Rightarrow> string" where
  "visionRulesInForce g tok =
     (let visionRules = or_else (t_visionRules tok) ''default''
      in if visionRules = ''default'' then g_visionRules g else visionRules)"

section \<open>The radii\<close>

definition minR :: "token \<Rightarrow> number" where
  "minR tok = n_mul (Math_min [t_w tok, t_h tok]) (Fin (1 / 2))"

definition maxR :: "dimensions \<Rightarrow> number" where
  "maxR d =
     (case d_maxR d of
        Some m \<Rightarrow> m
      | None \<Rightarrow> Math_hypot (d_sceneWidth d) (d_sceneHeight d))"

text \<open>
  The variables \<open>sign\<close>, \<open>dim\<close>, \<open>bright\<close> and \<open>sightLimit\<close> of the wrapper of
  \<open>PointSource.prototype.initialize\<close> once the sight limit has been applied;
  \<open>sightLimit\<close> is \<open>NaN\<close> when neither the token nor the scene has one.
\<close>

record radii =
  r_sign :: number
  r_dim :: number
  r_bright :: number
  r_sightLimit :: number

text \<open>The sight limit as a flag gives it: the token's, or failing that the scene's.\<close>

definition sightLimitFlag :: "token \<Rightarrow> number" where
  "sightLimitFlag tok =
     (let sightLimit = t_sightLimit tok
      in if isNaN sightLimit then t_sceneSightLimit tok else sightLimit)"

definition resolveRadii :: "dimensions \<Rightarrow> token \<Rightarrow> radii" where
  "resolveRadii d tok =
     (let dim = getLightRadius d tok (t_dimSight tok);
          bright = getLightRadius d tok (t_brightSight tok);
          sign = (if n_lt (Math_min [dim, bright]) (Fin 0) then Fin (- 1) else Fin 1);
          dim = Math_abs dim;
          bright = Math_abs bright;
          dim = Math_min [dim, maxR d];
          bright = Math_min [bright, maxR d];
          sightLimit = sightLimitFlag tok
      in if \<not> isNaN sightLimit then
           let sightLimit = Math_max [getLightRadius d tok (Math_abs sightLimit), minR tok]
           in \<lparr>r_sign = sign, r_dim = Math_min [dim, sightLimit],
               r_bright = Math_min [bright, sightLimit], r_sightLimit = sightLimit\<rparr>
         else \<lparr>r_sign = sign, r_dim = dim, r_bright = bright, r_sightLimit = sightLimit\<rparr>)"

text \<open>\<open>tag === a || tag === b ? r : 0\<close>, the branch every radius below is built from.\<close>

definition branch :: "string \<Rightarrow> string list \<Rightarrow> number \<Rightarrow> number" where
  "branch tag tags r = (if tag \<in> set tags then r else Fin 0)"

text \<open>The values first written to \<open>data.dim\<close> and \<open>data.bright\<close>.\<close>

definition dimOutput :: "rules \<Rightarrow> radii \<Rightarrow> number" where
  "dimOutput rs r =
     n_mul (r_sign r)
       (Math_max
          [branch (dimVisionInDarkness rs) [''dim'', ''dim_mono''] (r_dim r),
           branch (brightVisionInDarkness rs) [''dim'', ''dim_mono''] (r_bright r)])"

definition brightOutput :: "rules \<Rightarrow> radii \<Rightarrow> number" where
  "brightOutput rs r =
     n_mul (r_sign r)
       (Math_max
          [branch (dimVisionInDarkness rs) [''bright'', ''bright_mono''] (r_dim r),
           branch (brightVisionInDarkness rs) [''bright'', ''bright_mono''] (r_bright r)])"

definition visionRadius :: "rules \<Rightarrow> radii \<Rightarrow> number" where
  "visionRadius rs r =
     Math_max
       [branch (dimVisionInDarkness rs) [''scene'', ''scene_mono''] (r_dim r),
        branch (dimVisionInDarkness rs) [''dim'', ''dim_mono''] (r_dim r),
        branch (dimVisionInDarkness rs) [''bright'', ''bright_mono''] (r_dim r),
        branch (brightVisionInDarkness rs) [''scene'', ''scene_mono''] (r_bright r),
        branch (brightVisionInDarkness rs) [''dim'', ''dim_mono''] (r_bright r),
        branch (brightVisionInDarkness rs) [''bright'', ''bright_mono''] (r_bright r)]"

definition visionRadiusColor :: "rules \<Rightarrow> radii \<Rightarrow> number" where
  "visionRadiusColor rs r =
     Math_max
       [branch (dimVisionInDarkness rs) [''scene''] (r_dim r),
        branch (dimVisionInDarkness rs) [''dim''] (r_dim r),
        branch (dimVisionInDarkness rs) [''bright''] (r_dim r),
        branch (brightVisionInDarkness rs) [''scene''] (r_bright r),
        branch (brightVisionInDarkness rs) [''dim''] (r_bright r),
        branch (brightVisionInDarkness rs) [''bright''] (r_bright r)]"

definition visionRadiusDimToBright :: "rules \<Rightarrow> radii \<Rightarrow> number" where
  "visionRadiusDimToBright rs r =
     Math_max
       [branch (dimVisionInDimLight rs) [''bright''] (r_dim r),
        branch (brightVisionInDimLight rs) [''bright''] (r_bright r)]"

section \<open>The wrapper of PointSource.prototype.initialize, up to the host's call\<close>

text \<open>
  What the wrapper has computed when it calls the host's \<open>initialize\<close>: the
  \<open>data.dim\<close> and \<open>data.bright\<close> it passes on, the radius it stores in its own
  extension of the source (\<open>this_.radius\<close>), and its constants.
\<close>

record resolved =
  dataDim :: number
  dataBright :: number
  o_radius :: number
  o_visionRadius :: number
  o_visionRadiusColor :: number
  o_visionRadiusDimToBright :: number
  o_sightLimit :: number
  o_minR :: number

text \<open>The body of the wrapper from the radii on, for the rules \<open>rs\<close> in force.\<close>

definition resolveWith :: "rules \<Rightarrow> dimensions \<Rightarrow> token \<Rightarrow> resolved" where
  "resolveWith rs d tok =
     (let r = resolveRadii d tok;
          data_dim = dimOutput rs r;
          data_bright = brightOutput rs r;
          this_radius = Math_max [Math_abs data_dim, Math_abs data_bright];
          data_dim =
            (if n_eq data_dim (Fin 0) \<and> n_eq data_bright (Fin 0) then minR tok
             else data_dim)
      in \<lparr>dataDim = data_dim, dataBright = data_bright, o_radius = this_radius,
          o_visionRadius = visionRadius rs r,
          o_visionRadiusColor = visionRadiusColor rs r,
          o_visionRadiusDimToBright = visionRadiusDimToBright rs r,
          o_sightLimit = r_sightLimit r, o_minR = minR tok\<rparr>)"

text \<open>
  The wrapper itself. For a source that is not a vision source (\<open>isVision\<close> false: the
  test on \<open>sourceType\<close> or on \<open>this_.isVision\<close>, by the host's version) it only calls
  the host's \<open>initialize\<close> on the data it was given.
\<close>

datatype outcome = Passthrough | Resolved resolved

definition initialize ::
  "(string \<Rightarrow> preset option) \<Rightarrow> settings \<Rightarrow> dimensions \<Rightarrow> bool \<Rightarrow> token \<Rightarrow> error + outcome" where
  "initialize presets g d isVision tok =
     (if \<not> isVision then Inr Passthrough
      else
        case resolveRules presets g tok of
          Inl e \<Rightarrow> Inl e
        | Inr rs \<Rightarrow> Inr (Resolved (resolveWith rs d tok)))"

text \<open>
  The radius the wrapper passes to \<open>computeFov\<close> for the source's field of view, after
  the host's call: \<^verbatim>\<open>Math.max(visionRadius, minR)\<close>.
\<close>

definition fovRadius :: "resolved \<Rightarrow> number" where
  "fovRadius out = Math_max [o_visionRadius out, o_minR out]"

section \<open>The wrapper of PointSource.prototype.drawLight\<close>



section \<open>computeFov\<close>

text \<open>
  A polygon holds its vertices as a flat array of coordinates \<open>x0, y0, x1, y1, ...\<close>.
  \<open>PIXI.Polygon\<close> is built from the points alone; the host's \<open>SourcePolygon\<close> also
  keeps the origin and the radius it is given.
\<close>

type_synonym point = "number \<times> number"

datatype polygon = Polygon "number list" | SourcePolygon number number number "number list"

fun points :: "polygon \<Rightarrow> number list" where
  "points (Polygon ps) = ps"
| "points (SourcePolygon px py pr ps) = ps"

text \<open>The constructors flatten the points they are given into the coordinate array.\<close>

fun flatten :: "point list \<Rightarrow> number list" where
  "flatten [] = []"
| "flatten ((px, py) # ps) = px # py # flatten ps"

text \<open>
  The source after the host's \<open>initialize\<close>: its position, the radius and the field of
  view the host gave it (\<open>None\<close> when \<open>this.fov\<close> is not set), and its unlimited
  line-of-sight polygon \<open>los\<close>.
\<close>

record source =
  s_x :: number
  s_y :: number
  s_radius :: number
  s_los :: polygon
  s_fov :: "polygon option"

text \<open>
  The cache is an object keyed by radius, with the memoized \<open>distance\<close> beside the
  polygons. A key is the number printed as a string, so equal numbers (and \<open>NaN\<close>
  with itself) share an entry; an entry that is missing or undefined is \<open>None\<close>.
\<close>

record fovCache =
  c_entries :: "number \<Rightarrow> polygon option"
  c_distance :: "number option"

text \<open>
  The host's \<open>Ray\<close> from \<open>A\<close> to \<open>B\<close>: its length is
  \<^verbatim>\<open>Math.hypot(B.x - A.x, B.y - A.y)\<close> and \<open>project(t)\<close> is the point
  \<^verbatim>\<open>{x: A.x + t * dx, y: A.y + t * dy}\<close>.
\<close>

definition Ray_distance :: "point \<Rightarrow> point \<Rightarrow> number" where
  "Ray_distance A B = Math_hypot (n_sub (fst B) (fst A)) (n_sub (snd B) (snd A))"

definition Ray_project :: "point \<Rightarrow> point \<Rightarrow> number \<Rightarrow> point" where
  "Ray_project A B t =
     (n_add (fst A) (n_mul t (n_sub (fst B) (fst A))),
      n_add (snd A) (n_mul t (n_sub (snd B) (snd A))))"

text \<open>One turn of the loop: the point \<open>q\<close> pushed for the vertex \<open>p\<close>.\<close>

definition fovPoint :: "source \<Rightarrow> number \<Rightarrow> number \<Rightarrow> point \<Rightarrow> point" where
  "fovPoint src distance limit p =
     (let t0 = Math_clamped (n_div (Ray_distance (s_x src, s_y src) p) distance) (Fin 0) (Fin 1)
      in if n_le t0 limit then p else Ray_project (s_x src, s_y src) p (n_div limit t0))"

text \<open>
  The loop reads the coordinates two by two. In an array of odd length the last
  \<open>y\<close> is undefined; it is \<open>NaN\<close> here, which is what the arithmetic makes of it.
\<close>

fun fovLoop :: "source \<Rightarrow> number \<Rightarrow> number \<Rightarrow> number list \<Rightarrow> point list" where
  "fovLoop src distance limit (px # py # ps) =
     fovPoint src distance limit (px, py) # fovLoop src distance limit ps"
| "fovLoop src distance limit [px] = [fovPoint src distance limit (px, NaN)]"
| "fovLoop src distance limit [] = []"

text \<open>\<^verbatim>\<open>fovCache && fovCache[radius]\<close> and \<^verbatim>\<open>fovCache?.distance\<close>.\<close>

definition cached :: "fovCache option \<Rightarrow> number \<Rightarrow> polygon option" where
  "cached fovCache radius = (case fovCache of None \<Rightarrow> None | Some c \<Rightarrow> c_entries c radius)"

definition cachedDistance :: "fovCache option \<Rightarrow> number option" where
  "cachedDistance fovCache = (case fovCache of None \<Rightarrow> None | Some c \<Rightarrow> c_distance c)"

text \<open>The distance from the source to the farthest corner of the scene.\<close>

definition cornerDistance :: "dimensions \<Rightarrow> source \<Rightarrow> number" where
  "cornerDistance d src =
     Math_hypot
       (Math_max [s_x src, n_sub (d_width d) (s_x src)])
       (Math_max [s_y src, n_sub (d_height d) (s_y src)])"

text \<open>
  The constant \<open>distance\<close> of \<open>computeFov\<close>: the memoized one, or else the greater
  of the source's own radius and the distance to the farthest corner.
\<close>

definition fovDistance :: "dimensions \<Rightarrow> source \<Rightarrow> fovCache option \<Rightarrow> number" where
  "fovDistance d src fovCache =
     (case cachedDistance fovCache of
        Some distance \<Rightarrow> distance
      | None \<Rightarrow> Math_max [s_radius src, cornerDistance d src])"

text \<open>
  \<open>computeFov\<close> returns the polygon and the cache as it leaves it. \<open>legacy\<close> is the
  test \<^verbatim>\<open>isNewerVersion("0.8.0", game.data.version)\<close>.
\<close>

definition computeFov ::
  "bool \<Rightarrow> dimensions \<Rightarrow> source \<Rightarrow> number \<Rightarrow> fovCache option \<Rightarrow> polygon \<times> fovCache option" where
  "computeFov legacy d src radius fovCache =
     (case cached fovCache radius of
        Some fov \<Rightarrow> (fov, fovCache)
      | None \<Rightarrow>
          let (fovPoints, fovCache) =
                (if n_lt (Fin 0) radius then
                   let distance = fovDistance d src fovCache;
                       fovCache = map_option (\<lambda>c. c\<lparr>c_distance := Some distance\<rparr>) fovCache;
                       limit = Math_clamped (n_div radius distance) (Fin 0) (Fin 1)
                   in (fovLoop src distance limit (points (s_los src)), fovCache)
                 else ([], fovCache));
              fov =
                (if legacy then Polygon (flatten fovPoints)
                 else SourcePolygon (s_x src) (s_y src) radius (flatten fovPoints))
          in (fov, map_option (\<lambda>c. c\<lparr>c_entries := (c_entries c)(radius \<mapsto> fov)\<rparr>) fovCache))"

text \<open>The vertices of a coordinate array, read as the loop reads them.\<close>

fun vertices :: "number list \<Rightarrow> point list" where
  "vertices (px # py # ps) = (px, py) # vertices ps"
| "vertices [px] = [(px, NaN)]"
| "vertices [] = []"

section \<open>The wrapper of PointSource.prototype.initialize, after the host's call\<close>

text \<open>
  The polygons the wrapper derives once the host has initialised the source:
  \<open>this.fov\<close>, \<open>this_.fovMono\<close>, \<open>this_.fovColor\<close>, \<open>this_.fovDimToBright\<close>
  and \<open>this.los\<close>. The cache starts with the host's own field of view under the host's
  radius. \<open>t_original\<close> says that the token has an \<open>_original\<close> (it is a preview).
  The colour of monochrome vision, which the wrapper resolves beside them, is left out.
\<close>

record fovs =
  f_fov :: polygon
  f_fovMono :: "polygon option"
  f_fovColor :: "polygon option"
  f_fovDimToBright :: "polygon option"
  f_los :: polygon

definition initializeFov :: "bool \<Rightarrow> dimensions \<Rightarrow> source \<Rightarrow> token \<Rightarrow> resolved \<Rightarrow> fovs" where
  "initializeFov legacy d src tok out =
     (let fovCache =
            Some \<lparr>c_entries = (\<lambda>k. if k = s_radius src then s_fov src else None),
                  c_distance = None\<rparr>;
          (fov, fovCache) = computeFov legacy d src (fovRadius out) fovCache;
          fovMono = (if \<not> t_original tok then Some fov else None);
          (fovColor, fovCache) =
            (if n_lt (Fin 0) (o_visionRadiusColor out) \<and> \<not> t_original tok then
               let (p, c) =
                     computeFov legacy d src (Math_max [o_visionRadiusColor out, o_minR out])
                       fovCache
               in (Some p, c)
             else (None, fovCache));
          (fovDimToBright, fovCache) =
            (if n_lt (Fin 0) (o_visionRadiusDimToBright out) \<and> \<not> t_original tok then
               let (p, c) =
                     computeFov legacy d src
                       (Math_max [o_visionRadiusDimToBright out, o_minR out]) fovCache
               in (Some p, c)
             else (None, fovCache));
          los =
            (if \<not> isNaN (o_sightLimit out) then
               fst (computeFov legacy d src (o_sightLimit out) fovCache)
             else s_los src)
      in \<lparr>f_fov = fov, f_fovMono = fovMono, f_fovColor = fovColor,
          f_fovDimToBright = fovDimToBright, f_los = los\<rparr>)"

section \<open>Well-formed scenes and tokens\<close>

fun positive :: "number \<Rightarrow> bool" where
  "positive (Fin a) = (0 < a)"
| "positive a = False"

fun nonNegative :: "number \<Rightarrow> bool" where
  "nonNegative (Fin a) = (0 \<le> a)"
| "nonNegative a = False"

text \<open>
  A scene with a positive unit distance and grid size and a maximal radius that is not
  negative, and a token of finite size whose two sight values are numbers.
\<close>

definition wellFormed :: "dimensions \<Rightarrow> token \<Rightarrow> bool" where
  "wellFormed d tok =
     (positive (d_distance d) \<and> positive (d_size d) \<and> n_le (Fin 0) (maxR d) \<and>
      nonNegative (t_w tok) \<and> nonNegative (t_h tok) \<and>
      t_dimSight tok \<noteq> NaN \<and> t_brightSight tok \<noteq> NaN)"

text \<open>
  A source at a finite position whose line of sight is an array of finite coordinates,
  two for each vertex.
\<close>

fun isFinite :: "number \<Rightarrow> bool" where
  "isFinite (Fin a) = True"
| "isFinite a = False"

definition wellFormedSource :: "source \<Rightarrow> bool" where
  "wellFormedSource src =
     (isFinite (s_x src) \<and> isFinite (s_y src) \<and> even (length (points (s_los src))) \<and>
      list_all isFinite (points (s_los src)))"

section \<open>A scene, a token and a source to evaluate the program on\<close>

definition exampleScene :: dimensions where
  "exampleScene =
     \<lparr>d_distance = Fin 5, d_size = Fin 100, d_width = Fin 4000, d_height = Fin 3000,
      d_sceneWidth = Fin 4000, d_sceneHeight = Fin 3000, d_maxR = Some (Fin 5000)\<rparr>"

text \<open>A token one grid square wide with no vision of its own, under the preset \<open>fvtt\<close>.\<close>

definition exampleToken :: token where
  "exampleToken =
     \<lparr>t_w = Fin 100, t_h = Fin 100, t_dimSight = Fin 0, t_brightSight = Fin 0,
      t_visionRules = Some ''fvtt'', t_dimVisionInDarkness = None,
      t_dimVisionInDimLight = None, t_brightVisionInDarkness = None,
      t_brightVisionInDimLight = None, t_sightLimit = NaN, t_sceneSightLimit = NaN,
      t_original = False\<rparr>"

definition exampleRules :: rules where
  "exampleRules =
     \<lparr>dimVisionInDarkness = ''dim'', dimVisionInDimLight = ''dim'',
      brightVisionInDarkness = ''bright'', brightVisionInDimLight = ''bright''\<rparr>"

text \<open>A table with the one preset \<open>fvtt\<close>, and world settings that name it.\<close>

definition examplePreset :: preset where
  "examplePreset =
     \<lparr>p_dimVisionInDarkness = Some ''dim'', p_dimVisionInDimLight = Some ''dim'',
      p_brightVisionInDarkness = Some ''bright'', p_brightVisionInDimLight = Some ''bright''\<rparr>"

definition examplePresets :: "string \<Rightarrow> preset option" where
  "examplePresets name = (if name = ''fvtt'' then Some examplePreset else None)"

definition exampleSettings :: settings where
  "exampleSettings =
     \<lparr>g_visionRules = ''fvtt'', g_dimVisionInDarkness = ''dim'',
      g_dimVisionInDimLight = ''dim'', g_brightVisionInDarkness = ''bright'',
      g_brightVisionInDimLight = ''bright''\<rparr>"

text \<open>A source in a corner of the scene, with a line of sight of two vertices.\<close>

definition exampleSource :: source where
  "exampleSource =
     \<lparr>s_x = Fin 0, s_y = Fin 0, s_radius = Fin 0,
      s_los = Polygon [Fin 6000, Fin 0, Fin 0, Fin 100], s_fov = None\<rparr>"

section \<open>Properties\<close>


subsection \<open>The order on numbers\<close>

lemma positive_Fin: "positive x \<Longrightarrow> \<exists>k. x = Fin k \<and> 0 < k"
  by (cases x) auto

lemma nonNegative_Fin: "nonNegative x \<Longrightarrow> \<exists>k. x = Fin k \<and> 0 \<le> k"
  by (cases x) auto

lemma n_le_refl: "a \<noteq> NaN \<Longrightarrow> n_le a a"
  by (cases a) auto

lemma n_le_trans: "n_le a b \<Longrightarrow> n_le b c \<Longrightarrow> n_le a c"
  by (cases a; cases b; cases c) auto

lemma n_le_notNaN: "n_le a b \<Longrightarrow> a \<noteq> NaN \<and> b \<noteq> NaN"
  by (cases a; cases b) auto

lemma max2_le_iff: "n_le (max2 a b) c \<longleftrightarrow> n_le a c \<and> n_le b c"
  by (cases a; cases b; cases c) (auto simp: max2_def)

lemma le_max2_iff: "a \<noteq> NaN \<Longrightarrow> b \<noteq> NaN \<Longrightarrow> n_le c (max2 a b) \<longleftrightarrow> n_le c a \<or> n_le c b"
  by (cases a; cases b; cases c) (auto simp: max2_def)

lemma le_min2_iff: "n_le c (min2 a b) \<longleftrightarrow> n_le c a \<and> n_le c b"
  by (cases a; cases b; cases c) (auto simp: min2_def)

lemma min2_le_iff: "a \<noteq> NaN \<Longrightarrow> b \<noteq> NaN \<Longrightarrow> n_le (min2 a b) c \<longleftrightarrow> n_le a c \<or> n_le b c"
  by (cases a; cases b; cases c) (auto simp: min2_def)

lemma max2_NaN_iff: "max2 a b = NaN \<longleftrightarrow> a = NaN \<or> b = NaN"
  by (auto simp: max2_def)

lemma min2_NaN_iff: "min2 a b = NaN \<longleftrightarrow> a = NaN \<or> b = NaN"
  by (auto simp: min2_def)

lemma max2_NegInf: "max2 a NegInf = a"
  by (cases a) (auto simp: max2_def)

lemma min2_PosInf: "min2 a PosInf = a"
  by (cases a) (auto simp: min2_def)

subsection \<open>The radii of a well-formed scene\<close>

lemma glr_abs_nonneg:
  assumes "positive (d_distance d)" "positive (d_size d)" "nonNegative (t_w tok)" "x \<noteq> NaN"
  shows "n_le (Fin 0) (Math_abs (getLightRadius d tok x))"
proof -
  obtain k s a where *: "d_distance d = Fin k" "0 < k" "d_size d = Fin s" "0 < s"
    "t_w tok = Fin a" "0 \<le> a"
    using assms positive_Fin nonNegative_Fin by metis
  show ?thesis using * \<open>x \<noteq> NaN\<close>
    by (cases x) (auto simp: getLightRadius_def n_eq_def Let_def)
qed

lemma minR_nonneg:
  assumes "nonNegative (t_w tok)" "nonNegative (t_h tok)"
  shows "n_le (Fin 0) (minR tok)"
proof -
  obtain a b where *: "t_w tok = Fin a" "0 \<le> a" "t_h tok = Fin b" "0 \<le> b"
    using assms nonNegative_Fin by metis
  show ?thesis using * by (auto simp: minR_def min2_def)
qed

lemma Math_abs_NaN_iff: "Math_abs a = NaN \<longleftrightarrow> a = NaN"
  by (cases a) auto

lemma radii_nonneg:
  assumes "wellFormed d tok"
  shows "n_le (Fin 0) (r_dim (resolveRadii d tok)) \<and> n_le (Fin 0) (r_bright (resolveRadii d tok))"
proof -
  have wf: "positive (d_distance d)" "positive (d_size d)" "nonNegative (t_w tok)"
    "nonNegative (t_h tok)" "n_le (Fin 0) (maxR d)" "t_dimSight tok \<noteq> NaN" "t_brightSight tok \<noteq> NaN"
    using assms by (auto simp: wellFormed_def)
  have d: "n_le (Fin 0) (Math_abs (getLightRadius d tok (t_dimSight tok)))"
    and b: "n_le (Fin 0) (Math_abs (getLightRadius d tok (t_brightSight tok)))"
    using wf by (auto intro: glr_abs_nonneg)
  have m: "n_le (Fin 0) (minR tok)" using wf(3,4) by (rule minR_nonneg)
  have s: "n_le (Fin 0) (max2 (getLightRadius d tok (Math_abs x)) (minR tok))" if "x \<noteq> NaN" for x
  proof -
    have "n_le (Fin 0) (Math_abs (getLightRadius d tok (Math_abs x)))"
      using that by (intro glr_abs_nonneg wf) (simp add: Math_abs_NaN_iff)
    then have "getLightRadius d tok (Math_abs x) \<noteq> NaN"
      using n_le_notNaN Math_abs_NaN_iff by blast
    then show ?thesis using m n_le_notNaN by (auto simp: le_max2_iff)
  qed
  show ?thesis
    using d b m wf(5) s
    by (auto simp: resolveRadii_def sightLimitFlag_def Let_def isNaN_def le_min2_iff max2_NegInf
        min2_PosInf)
qed

subsection \<open>The vision radius and the outputs\<close>

lemma sign_cases: "r_sign (resolveRadii d tok) = Fin 1 \<or> r_sign (resolveRadii d tok) = Fin (- 1)"
  by (simp add: resolveRadii_def Let_def)

lemma Math_max_NaN_iff: "Math_max xs = NaN \<longleftrightarrow> NaN \<in> set xs"
  by (induction xs) (auto simp: max2_NaN_iff)

lemma Math_max_ge: "x \<in> set xs \<Longrightarrow> NaN \<notin> set xs \<Longrightarrow> n_le x (Math_max xs)"
proof (induction xs)
  case Nil
  then show ?case by simp
next
  case (Cons a xs)
  have "Math_max xs \<noteq> NaN" using Cons.prems by (simp add: Math_max_NaN_iff)
  then show ?case using Cons by (auto simp: le_max2_iff n_le_refl)
qed

lemma Math_max_le: "c \<noteq> NaN \<Longrightarrow> (\<And>x. x \<in> set xs \<Longrightarrow> n_le x c) \<Longrightarrow> n_le (Math_max xs) c"
  by (induction xs) (auto simp: max2_le_iff, cases c, auto)

lemma n_mul_sign_le: "n_le (Fin 0) m \<Longrightarrow> s = Fin 1 \<or> s = Fin (- 1) \<Longrightarrow> n_le (n_mul s m) m"
  by (cases m) auto

lemma branch_nonneg: "n_le (Fin 0) x \<Longrightarrow> n_le (Fin 0) (branch tag tags x)"
  by (simp add: branch_def)

lemma outputs_le_visionRadius:
  assumes "n_le (Fin 0) (r_dim r)" "n_le (Fin 0) (r_bright r)"
    and "r_sign r = Fin 1 \<or> r_sign r = Fin (- 1)"
  shows "n_le (dimOutput rs r) (visionRadius rs r)"
    and "n_le (brightOutput rs r) (visionRadius rs r)"
    and "n_le (Fin 0) (visionRadius rs r)"
proof -
  let ?vs = "[branch (dimVisionInDarkness rs) [''scene'', ''scene_mono''] (r_dim r),
        branch (dimVisionInDarkness rs) [''dim'', ''dim_mono''] (r_dim r),
        branch (dimVisionInDarkness rs) [''bright'', ''bright_mono''] (r_dim r),
        branch (brightVisionInDarkness rs) [''scene'', ''scene_mono''] (r_bright r),
        branch (brightVisionInDarkness rs) [''dim'', ''dim_mono''] (r_bright r),
        branch (brightVisionInDarkness rs) [''bright'', ''bright_mono''] (r_bright r)]"
  have nn: "n_le (Fin 0) x" if "x \<in> set ?vs" for x
    using that assms(1,2) by (auto intro: branch_nonneg)
  then have nan: "NaN \<notin> set ?vs"
    using n_le_notNaN by blast
  have vr: "visionRadius rs r = Math_max ?vs"
    by (simp add: visionRadius_def)
  have ge: "n_le x (visionRadius rs r)" if "x \<in> set ?vs" for x
    unfolding vr using that nan by (rule Math_max_ge)
  have vnan: "visionRadius rs r \<noteq> NaN"
    unfolding vr using nan by (simp only: Math_max_NaN_iff not_False_eq_True)
  show "n_le (Fin 0) (visionRadius rs r)"
  proof -
    have "branch (dimVisionInDarkness rs) [''scene'', ''scene_mono''] (r_dim r) \<in> set ?vs"
      by simp
    then show ?thesis using nn ge n_le_trans by blast
  qed
  have out: "n_le (n_mul (r_sign r) (Math_max [x, y])) (visionRadius rs r)"
    if "x \<in> set ?vs" "y \<in> set ?vs" for x y
  proof -
    have m: "n_le (Math_max [x, y]) (visionRadius rs r)"
      using that ge vnan by (intro Math_max_le) auto
    have "n_le (Fin 0) (Math_max [x, y])"
      using nn[OF that(1)] nn[OF that(2)] n_le_notNaN[of "Fin 0"]
      by (simp add: le_max2_iff max2_NegInf)
    then have "n_le (n_mul (r_sign r) (Math_max [x, y])) (Math_max [x, y])"
      using assms(3) by (rule n_mul_sign_le)
    then show ?thesis using m by (rule n_le_trans)
  qed
  show "n_le (dimOutput rs r) (visionRadius rs r)"
    unfolding dimOutput_def by (rule out) simp_all
  show "n_le (brightOutput rs r) (visionRadius rs r)"
    unfolding brightOutput_def by (rule out) simp_all
qed

text \<open>
  C1 (as amended). In a well-formed scene, for every assignment of the rules, the
  constant \<open>visionRadius\<close> is at least the values first written to \<open>data.dim\<close>
  and \<open>data.bright\<close>, and the radius of the field of view,
  \<^verbatim>\<open>Math.max(visionRadius, minR)\<close>, is at least the two values passed to the host,
  where \<open>data.dim\<close> has been forced to \<open>minR\<close> when both were zero.
\<close>

theorem visionRadius_covers_outputs:
  assumes "wellFormed d tok"
  shows "n_le (Math_max [dimOutput rs (resolveRadii d tok), brightOutput rs (resolveRadii d tok)])
           (o_visionRadius (resolveWith rs d tok)) \<and>
         n_le (Math_max [dataDim (resolveWith rs d tok), dataBright (resolveWith rs d tok)])
           (fovRadius (resolveWith rs d tok))"
proof -
  let ?r = "resolveRadii d tok"
  have nn: "n_le (Fin 0) (r_dim ?r)" "n_le (Fin 0) (r_bright ?r)"
    using radii_nonneg[OF assms] by auto
  have m: "n_le (Fin 0) (minR tok)"
    using assms by (auto simp: wellFormed_def intro: minR_nonneg)
  note le = outputs_le_visionRadius[OF nn sign_cases, of rs]
  have vr: "visionRadius rs ?r \<noteq> NaN" "minR tok \<noteq> NaN" "brightOutput rs ?r \<noteq> NaN"
    using le m n_le_notNaN by blast+
  have a: "n_le (Math_max [dimOutput rs ?r, brightOutput rs ?r]) (visionRadius rs ?r)"
    using le by (simp add: max2_le_iff max2_NegInf)
  have b: "n_le (Math_max [dataDim (resolveWith rs d tok), dataBright (resolveWith rs d tok)])
           (fovRadius (resolveWith rs d tok))"
    using le m vr
    by (auto simp: resolveWith_def fovRadius_def Let_def max2_le_iff max2_NegInf le_max2_iff
        n_le_refl n_eq_def)
  show ?thesis using a b by (simp add: resolveWith_def Let_def)
qed

lemmas example_defs = exampleScene_def exampleToken_def exampleRules_def examplePresets_def
  examplePreset_def
  exampleSettings_def exampleSource_def

lemma wellFormed_example: "wellFormed exampleScene exampleToken"
  by (simp add: wellFormed_def example_defs maxR_def)

lemma resolveRadii_example:
  "resolveRadii exampleScene exampleToken =
     \<lparr>r_sign = Fin 1, r_dim = Fin 0, r_bright = Fin 0, r_sightLimit = NaN\<rparr>"
  by (simp add: resolveRadii_def sightLimitFlag_def example_defs getLightRadius_def n_eq_def
      min2_def maxR_def isNaN_def Let_def)

lemma minR_example: "minR exampleToken = Fin 50"
  by (simp add: minR_def example_defs min2_def)

lemma resolveWith_example:
  "resolveWith exampleRules exampleScene exampleToken =
     \<lparr>dataDim = Fin 50, dataBright = Fin 0, o_radius = Fin 0, o_visionRadius = Fin 0,
      o_visionRadiusColor = Fin 0, o_visionRadiusDimToBright = Fin 0, o_sightLimit = NaN,
      o_minR = Fin 50\<rparr>"
  by (simp add: resolveWith_def resolveRadii_example minR_example dimOutput_def brightOutput_def
      visionRadius_def visionRadiusColor_def visionRadiusDimToBright_def branch_def max2_def
      n_eq_def exampleRules_def Let_def)

text \<open>
  For the token with no vision both outputs are zero, \<open>data.dim\<close> is forced to
  \<open>minR = 50\<close>, and \<open>visionRadius\<close> stays zero, below it.
\<close>

theorem visionRadius_below_forced_dim:
  "\<not> n_le (Math_max [dataDim (resolveWith exampleRules exampleScene exampleToken),
                     dataBright (resolveWith exampleRules exampleScene exampleToken)])
          (o_visionRadius (resolveWith exampleRules exampleScene exampleToken))"
  by (simp add: resolveWith_example max2_def)

theorem visionRadius_covers_outputs_witness:
  "wellFormed exampleScene exampleToken \<and>
   n_le (Math_max [dimOutput exampleRules (resolveRadii exampleScene exampleToken),
                   brightOutput exampleRules (resolveRadii exampleScene exampleToken)])
     (o_visionRadius (resolveWith exampleRules exampleScene exampleToken)) \<and>
   n_le (Math_max [dataDim (resolveWith exampleRules exampleScene exampleToken),
                   dataBright (resolveWith exampleRules exampleScene exampleToken)])
     (fovRadius (resolveWith exampleRules exampleScene exampleToken))"
  using visionRadius_covers_outputs[OF wellFormed_example, of exampleRules] wellFormed_example by simp

subsection \<open>The token with no vision\<close>

lemma resolveRules_example:
  "resolveRules examplePresets exampleSettings exampleToken = Inr exampleRules"
  by (simp add: resolveRules_def ruleFields_def or_else_def example_defs)

text \<open>
  Under the preset \<open>fvtt\<close> the token with no vision is resolved with
  \<open>visionRadius = 0\<close>, while \<open>minR = 50\<close>.
\<close>

theorem blind_token_visionRadius_zero:
  "initialize examplePresets exampleSettings exampleScene True exampleToken =
     Inr (Resolved (resolveWith exampleRules exampleScene exampleToken)) \<and>
   o_visionRadius (resolveWith exampleRules exampleScene exampleToken) = Fin 0 \<and>
   minR exampleToken = Fin 50 \<and>
   o_visionRadius (resolveWith exampleRules exampleScene exampleToken) \<noteq> minR exampleToken"
  by (simp add: initialize_def resolveRules_example resolveWith_example minR_example)

lemma getLightRadius_zero: "getLightRadius d tok (Fin 0) = Fin 0"
  by (simp add: getLightRadius_def n_eq_def)

lemma min2_zero: "n_le (Fin 0) m \<Longrightarrow> min2 (Fin 0) m = Fin 0"
  by (cases m) (auto simp: min2_def)

lemma max2_zero: "n_le (Fin 0) m \<Longrightarrow> max2 (Fin 0) m = m"
  by (cases m) (auto simp: max2_def)

lemma radii_blind:
  assumes "wellFormed d tok" "t_dimSight tok = Fin 0" "t_brightSight tok = Fin 0"
  shows "r_sign (resolveRadii d tok) = Fin 1 \<and> r_dim (resolveRadii d tok) = Fin 0 \<and>
         r_bright (resolveRadii d tok) = Fin 0"
proof -
  have m: "n_le (Fin 0) (maxR d)" using assms by (simp add: wellFormed_def)
  have wf: "positive (d_distance d)" "positive (d_size d)" "nonNegative (t_w tok)"
    "nonNegative (t_h tok)"
    using assms by (auto simp: wellFormed_def)
  have s: "n_le (Fin 0) (max2 (getLightRadius d tok (Math_abs x)) (minR tok))" if "x \<noteq> NaN" for x
  proof -
    have "n_le (Fin 0) (Math_abs (getLightRadius d tok (Math_abs x)))"
      using that by (intro glr_abs_nonneg wf) (simp add: Math_abs_NaN_iff)
    then have "getLightRadius d tok (Math_abs x) \<noteq> NaN"
      using n_le_notNaN Math_abs_NaN_iff by blast
    then show ?thesis using minR_nonneg[OF wf(3,4)] n_le_notNaN by (auto simp: le_max2_iff)
  qed
  show ?thesis
    using assms(2,3) m s
    by (auto simp: resolveRadii_def sightLimitFlag_def Let_def getLightRadius_zero min2_zero
        min2_PosInf max2_NegInf isNaN_def)
qed

text \<open>
  C2 (as amended). For a token whose two sight values are zero, with the preset
  \<open>fvtt\<close> in force (on the token, or in the world setting the token falls back to)
  and in a well-formed scene, the wrapper passes \<open>data.dim = minR\<close> to the host; the
  constant \<open>visionRadius\<close> is zero, and the radius of the field of view,
  \<^verbatim>\<open>Math.max(visionRadius, minR)\<close>, is \<open>minR\<close>.
\<close>

theorem blind_token_fvtt:
  assumes "wellFormed d tok" "t_dimSight tok = Fin 0" "t_brightSight tok = Fin 0"
    and "visionRulesInForce g tok = ''fvtt''" "presets ''fvtt'' = Some p"
  shows "\<exists>out. initialize presets g d True tok = Inr (Resolved out) \<and>
           dataDim out = minR tok \<and> o_visionRadius out = Fin 0 \<and> fovRadius out = minR tok"
proof -
  obtain rs where rs: "resolveRules presets g tok = Inr rs"
    using assms(4,5)
    by (auto simp: resolveRules_def ruleFields_def visionRulesInForce_def Let_def
        split: if_splits)
  let ?r = "resolveRadii d tok"
  note r = radii_blind[OF assms(1-3)]
  have m: "n_le (Fin 0) (minR tok)"
    using assms(1) by (auto simp: wellFormed_def intro: minR_nonneg)
  have out: "dimOutput rs ?r = Fin 0" "brightOutput rs ?r = Fin 0" "visionRadius rs ?r = Fin 0"
    using r by (simp_all add: dimOutput_def brightOutput_def visionRadius_def branch_def max2_def)
  have "dataDim (resolveWith rs d tok) = minR tok"
    "o_visionRadius (resolveWith rs d tok) = Fin 0"
    "fovRadius (resolveWith rs d tok) = minR tok"
    using out m by (simp_all add: resolveWith_def fovRadius_def Let_def n_eq_def max2_zero max2_NegInf)
  then show ?thesis using rs by (simp add: initialize_def)
qed

theorem blind_token_fvtt_witness:
  "wellFormed exampleScene exampleToken \<and> t_dimSight exampleToken = Fin 0 \<and>
   t_brightSight exampleToken = Fin 0 \<and>
   visionRulesInForce exampleSettings exampleToken = ''fvtt'' \<and>
   examplePresets ''fvtt'' = Some examplePreset \<and>
   (\<exists>out. initialize examplePresets exampleSettings exampleScene True exampleToken =
             Inr (Resolved out) \<and>
           dataDim out = minR exampleToken \<and> o_visionRadius out = Fin 0 \<and>
           fovRadius out = minR exampleToken)"
proof -
  have p: "examplePresets ''fvtt'' = Some examplePreset"
    by (simp add: examplePresets_def)
  have t: "t_dimSight exampleToken = Fin 0" "t_brightSight exampleToken = Fin 0"
    "visionRulesInForce exampleSettings exampleToken = ''fvtt''"
    by (simp_all add: exampleToken_def visionRulesInForce_def or_else_def)
  show ?thesis
    using blind_token_fvtt[where d = exampleScene and tok = exampleToken and presets = examplePresets
        and g = exampleSettings, OF wellFormed_example t p] wellFormed_example t p
    by simp
qed

subsection \<open>getLightRadius and the scene\<close>

text \<open>
  With a unit distance of zero a sight value of 30 gives an infinite radius, not zero.
\<close>

theorem getLightRadius_zero_distance_infinite:
  "getLightRadius (exampleScene\<lparr>d_distance := Fin 0\<rparr>) exampleToken (Fin 30) = PosInf \<and>
   getLightRadius (exampleScene\<lparr>d_distance := Fin 0\<rparr>) exampleToken (Fin 30) \<noteq> Fin 0"
  by (simp add: getLightRadius_def n_eq_def exampleScene_def exampleToken_def)

text \<open>
  C9 (as amended). \<open>getLightRadius\<close> returns zero when the sight value is zero,
  whatever the scene. It has no guard on the scene: for a finite sight value that is not
  zero, a unit distance of zero gives \<open>Infinity\<close>, \<open>-Infinity\<close> or \<open>NaN\<close>; and a
  grid size of zero, with a unit distance that is finite and not zero and a token of
  finite width, gives half the token's width with the sign of the sight value, or
  \<open>NaN\<close> (the result when the quotient of the sight value by the unit distance
  overflows).
\<close>

theorem getLightRadius_guards_units_only:
  "getLightRadius d tok (Fin 0) = Fin 0 \<and>
   (u \<noteq> 0 \<and> d_distance d = Fin 0 \<longrightarrow>
      getLightRadius d tok (Fin u) \<in> {PosInf, NegInf, NaN}) \<and>
   (u \<noteq> 0 \<and> d_distance d = Fin k \<and> k \<noteq> 0 \<and> d_size d = Fin 0 \<and> t_w tok = Fin a \<longrightarrow>
      getLightRadius d tok (Fin u) \<in> {Fin (a / 2 * sgn u), NaN})"
proof (intro conjI impI)
  show "getLightRadius d tok (Fin 0) = Fin 0"
    by (rule getLightRadius_zero)
next
  assume "u \<noteq> 0 \<and> d_distance d = Fin 0"
  then show "getLightRadius d tok (Fin u) \<in> {PosInf, NegInf, NaN}"
    by (cases "d_size d"; cases "t_w tok")
       (auto simp: getLightRadius_def n_eq_def Let_def sgn_if)
next
  assume "u \<noteq> 0 \<and> d_distance d = Fin k \<and> k \<noteq> 0 \<and> d_size d = Fin 0 \<and> t_w tok = Fin a"
  then show "getLightRadius d tok (Fin u) \<in> {Fin (a / 2 * sgn u), NaN}"
    by (simp add: getLightRadius_def n_eq_def)
qed

theorem getLightRadius_guards_units_only_witness:
  "getLightRadius (exampleScene\<lparr>d_distance := Fin 0\<rparr>) exampleToken (Fin 0) = Fin 0 \<and>
   (30::real) \<noteq> 0 \<and> d_distance (exampleScene\<lparr>d_distance := Fin 0\<rparr>) = Fin 0 \<and>
   getLightRadius (exampleScene\<lparr>d_distance := Fin 0\<rparr>) exampleToken (Fin 30)
     \<in> {PosInf, NegInf, NaN} \<and>
   d_distance (exampleScene\<lparr>d_size := Fin 0\<rparr>) = Fin 5 \<and> (5::real) \<noteq> 0 \<and>
   d_size (exampleScene\<lparr>d_size := Fin 0\<rparr>) = Fin 0 \<and> t_w exampleToken = Fin 100 \<and>
   getLightRadius (exampleScene\<lparr>d_size := Fin 0\<rparr>) exampleToken (Fin 30)
     \<in> {Fin (100 / 2 * sgn 30), NaN}"
  using getLightRadius_guards_units_only
          [of "exampleScene\<lparr>d_distance := Fin 0\<rparr>" exampleToken 30 0 0]
        getLightRadius_guards_units_only
          [of "exampleScene\<lparr>d_size := Fin 0\<rparr>" exampleToken 30 5 100]
  by (simp add: exampleScene_def exampleToken_def)

subsection \<open>The radius stored for drawLight\<close>



subsection \<open>Unknown presets\<close>

text \<open>
  A token whose flag names no preset of the table: the wrapper raises.
\<close>

theorem unknown_preset_raises:
  "initialize examplePresets exampleSettings exampleScene True
     (exampleToken\<lparr>t_visionRules := Some ''foo''\<rparr>) = Inl TypeError"
  by (simp add: initialize_def resolveRules_def ruleFields_def or_else_def example_defs)

lemma initialize_raises_iff:
  "initialize presets g d True tok = Inl TypeError \<longleftrightarrow>
     visionRulesInForce g tok \<noteq> ''custom'' \<and> presets (visionRulesInForce g tok) = None"
  by (auto simp: initialize_def resolveRules_def ruleFields_def visionRulesInForce_def Let_def
      split: sum.splits option.splits)

text \<open>
  C8 (as amended). The wrapper raises a TypeError to its caller exactly when the value
  of the vision rules in force is neither \<open>custom\<close> nor a key of the table of presets:
  such a value is not treated as \<open>custom\<close>. With \<open>custom\<close> on the token each rule is
  the token's flag, or the world setting when the flag is missing; with \<open>custom\<close> as
  the world setting each rule is the world setting; with a preset each rule is the
  preset's field, or the world setting when the preset does not define it.
\<close>

theorem raises_iff_unknown_preset:
  "(initialize presets g d True tok = Inl TypeError \<longleftrightarrow>
      visionRulesInForce g tok \<noteq> ''custom'' \<and> presets (visionRulesInForce g tok) = None) \<and>
   (t_visionRules tok = Some ''custom'' \<longrightarrow>
      resolveRules presets g tok =
        Inr \<lparr>dimVisionInDarkness = or_else (t_dimVisionInDarkness tok) (g_dimVisionInDarkness g),
             dimVisionInDimLight = or_else (t_dimVisionInDimLight tok) (g_dimVisionInDimLight g),
             brightVisionInDarkness =
               or_else (t_brightVisionInDarkness tok) (g_brightVisionInDarkness g),
             brightVisionInDimLight =
               or_else (t_brightVisionInDimLight tok) (g_brightVisionInDimLight g)\<rparr>) \<and>
   (t_visionRules tok \<noteq> Some ''custom'' \<and> visionRulesInForce g tok = ''custom'' \<longrightarrow>
      resolveRules presets g tok =
        Inr \<lparr>dimVisionInDarkness = g_dimVisionInDarkness g,
             dimVisionInDimLight = g_dimVisionInDimLight g,
             brightVisionInDarkness = g_brightVisionInDarkness g,
             brightVisionInDimLight = g_brightVisionInDimLight g\<rparr>) \<and>
   (visionRulesInForce g tok \<noteq> ''custom'' \<and> presets (visionRulesInForce g tok) = Some p \<longrightarrow>
      resolveRules presets g tok =
        Inr \<lparr>dimVisionInDarkness = or_else (p_dimVisionInDarkness p) (g_dimVisionInDarkness g),
             dimVisionInDimLight = or_else (p_dimVisionInDimLight p) (g_dimVisionInDimLight g),
             brightVisionInDarkness =
               or_else (p_brightVisionInDarkness p) (g_brightVisionInDarkness g),
             brightVisionInDimLight =
               or_else (p_brightVisionInDimLight p) (g_brightVisionInDimLight g)\<rparr>)"
proof (intro conjI impI)
  show "initialize presets g d True tok = Inl TypeError \<longleftrightarrow>
      visionRulesInForce g tok \<noteq> ''custom'' \<and> presets (visionRulesInForce g tok) = None"
    by (rule initialize_raises_iff)
next
  assume "t_visionRules tok = Some ''custom''"
  then show "resolveRules presets g tok =
        Inr \<lparr>dimVisionInDarkness = or_else (t_dimVisionInDarkness tok) (g_dimVisionInDarkness g),
             dimVisionInDimLight = or_else (t_dimVisionInDimLight tok) (g_dimVisionInDimLight g),
             brightVisionInDarkness =
               or_else (t_brightVisionInDarkness tok) (g_brightVisionInDarkness g),
             brightVisionInDimLight =
               or_else (t_brightVisionInDimLight tok) (g_brightVisionInDimLight g)\<rparr>"
    by (simp add: resolveRules_def ruleFields_def or_else_def)
next
  assume "t_visionRules tok \<noteq> Some ''custom'' \<and> visionRulesInForce g tok = ''custom''"
  then show "resolveRules presets g tok =
        Inr \<lparr>dimVisionInDarkness = g_dimVisionInDarkness g,
             dimVisionInDimLight = g_dimVisionInDimLight g,
             brightVisionInDarkness = g_brightVisionInDarkness g,
             brightVisionInDimLight = g_brightVisionInDimLight g\<rparr>"
    by (auto simp: resolveRules_def ruleFields_def visionRulesInForce_def or_else_def Let_def
        undefinedRules_def split: option.splits if_splits)
next
  assume "visionRulesInForce g tok \<noteq> ''custom'' \<and> presets (visionRulesInForce g tok) = Some p"
  then show "resolveRules presets g tok =
        Inr \<lparr>dimVisionInDarkness = or_else (p_dimVisionInDarkness p) (g_dimVisionInDarkness g),
             dimVisionInDimLight = or_else (p_dimVisionInDimLight p) (g_dimVisionInDimLight g),
             brightVisionInDarkness =
               or_else (p_brightVisionInDarkness p) (g_brightVisionInDarkness g),
             brightVisionInDimLight =
               or_else (p_brightVisionInDimLight p) (g_brightVisionInDimLight g)\<rparr>"
    by (auto simp: resolveRules_def ruleFields_def visionRulesInForce_def Let_def
        split: if_splits)
qed

theorem raises_iff_unknown_preset_witness:
  "visionRulesInForce exampleSettings (exampleToken\<lparr>t_visionRules := Some ''foo''\<rparr>) \<noteq> ''custom'' \<and>
   examplePresets (visionRulesInForce exampleSettings (exampleToken\<lparr>t_visionRules := Some ''foo''\<rparr>))
     = None \<and>
   initialize examplePresets exampleSettings exampleScene True
     (exampleToken\<lparr>t_visionRules := Some ''foo''\<rparr>) = Inl TypeError \<and>
   t_visionRules (exampleToken\<lparr>t_visionRules := Some ''custom''\<rparr>) = Some ''custom'' \<and>
   resolveRules examplePresets exampleSettings (exampleToken\<lparr>t_visionRules := Some ''custom''\<rparr>)
     = Inr exampleRules \<and>
   t_visionRules (exampleToken\<lparr>t_visionRules := None\<rparr>) \<noteq> Some ''custom'' \<and>
   visionRulesInForce (exampleSettings\<lparr>g_visionRules := ''custom''\<rparr>)
     (exampleToken\<lparr>t_visionRules := None\<rparr>) = ''custom'' \<and>
   resolveRules examplePresets (exampleSettings\<lparr>g_visionRules := ''custom''\<rparr>)
     (exampleToken\<lparr>t_visionRules := None\<rparr>) = Inr exampleRules \<and>
   visionRulesInForce exampleSettings exampleToken \<noteq> ''custom'' \<and>
   examplePresets (visionRulesInForce exampleSettings exampleToken) = Some examplePreset \<and>
   resolveRules examplePresets exampleSettings exampleToken = Inr exampleRules"
proof -
  let ?foo = "exampleToken\<lparr>t_visionRules := Some ''foo''\<rparr>"
  let ?custom = "exampleToken\<lparr>t_visionRules := Some ''custom''\<rparr>"
  let ?none = "exampleToken\<lparr>t_visionRules := None\<rparr>"
  let ?g = "exampleSettings\<lparr>g_visionRules := ''custom''\<rparr>"
  have a: "visionRulesInForce exampleSettings ?foo \<noteq> ''custom''"
    "examplePresets (visionRulesInForce exampleSettings ?foo) = None"
    by (simp_all add: visionRulesInForce_def or_else_def examplePresets_def exampleToken_def)
  have b: "t_visionRules ?custom = Some ''custom''"
    by simp
  have c: "t_visionRules ?none \<noteq> Some ''custom''" "visionRulesInForce ?g ?none = ''custom''"
    by (simp_all add: visionRulesInForce_def or_else_def exampleSettings_def)
  have d: "visionRulesInForce exampleSettings exampleToken \<noteq> ''custom''"
    "examplePresets (visionRulesInForce exampleSettings exampleToken) = Some examplePreset"
    by (simp_all add: visionRulesInForce_def or_else_def examplePresets_def exampleToken_def)
  have e: "or_else None x = x" "or_else (Some ''dim'') x = ''dim''"
    "or_else (Some ''bright'') x = ''bright''" for x
    by (simp_all add: or_else_def)
  have f: "t_dimVisionInDarkness ?custom = None" "t_dimVisionInDimLight ?custom = None"
    "t_brightVisionInDarkness ?custom = None" "t_brightVisionInDimLight ?custom = None"
    "g_dimVisionInDarkness exampleSettings = ''dim''"
    "g_dimVisionInDimLight exampleSettings = ''dim''"
    "g_brightVisionInDarkness exampleSettings = ''bright''"
    "g_brightVisionInDimLight exampleSettings = ''bright''"
    "g_dimVisionInDarkness ?g = ''dim''" "g_dimVisionInDimLight ?g = ''dim''"
    "g_brightVisionInDarkness ?g = ''bright''" "g_brightVisionInDimLight ?g = ''bright''"
    "p_dimVisionInDarkness examplePreset = Some ''dim''"
    "p_dimVisionInDimLight examplePreset = Some ''dim''"
    "p_brightVisionInDarkness examplePreset = Some ''bright''"
    "p_brightVisionInDimLight examplePreset = Some ''bright''"
    by (simp_all add: exampleToken_def exampleSettings_def examplePreset_def)
  show ?thesis
    using raises_iff_unknown_preset[of examplePresets exampleSettings exampleScene ?foo]
      raises_iff_unknown_preset[of examplePresets exampleSettings exampleScene ?custom]
      raises_iff_unknown_preset[of examplePresets ?g exampleScene ?none]
      raises_iff_unknown_preset[of examplePresets exampleSettings exampleScene exampleToken
        examplePreset]
      a b c d
    by (simp add: e f exampleRules_def)
qed

subsection \<open>The sight limit\<close>

lemma resolveRadii_dim:
  "r_dim (resolveRadii d tok) =
     (if \<not> isNaN (sightLimitFlag tok) then
        min2 (min2 (Math_abs (getLightRadius d tok (t_dimSight tok))) (maxR d))
          (max2 (getLightRadius d tok (Math_abs (sightLimitFlag tok))) (minR tok))
      else min2 (Math_abs (getLightRadius d tok (t_dimSight tok))) (maxR d))"
  by (simp add: resolveRadii_def Let_def min2_PosInf max2_NegInf)

lemma resolveRadii_bright:
  "r_bright (resolveRadii d tok) =
     (if \<not> isNaN (sightLimitFlag tok) then
        min2 (min2 (Math_abs (getLightRadius d tok (t_brightSight tok))) (maxR d))
          (max2 (getLightRadius d tok (Math_abs (sightLimitFlag tok))) (minR tok))
      else min2 (Math_abs (getLightRadius d tok (t_brightSight tok))) (maxR d))"
  by (simp add: resolveRadii_def Let_def min2_PosInf max2_NegInf)

lemma resolveRadii_sightLimit:
  "r_sightLimit (resolveRadii d tok) =
     (if \<not> isNaN (sightLimitFlag tok) then
        max2 (getLightRadius d tok (Math_abs (sightLimitFlag tok))) (minR tok)
      else sightLimitFlag tok)"
  by (simp add: resolveRadii_def Let_def max2_NegInf)

lemma sightLimit_px_ge_minR:
  assumes "wellFormed d tok" "x \<noteq> NaN"
  shows "n_le (minR tok) (max2 (getLightRadius d tok (Math_abs x)) (minR tok))"
proof -
  have wf: "positive (d_distance d)" "positive (d_size d)" "nonNegative (t_w tok)"
    "nonNegative (t_h tok)"
    using assms(1) by (auto simp: wellFormed_def)
  have "n_le (Fin 0) (Math_abs (getLightRadius d tok (Math_abs x)))"
    using assms(2) by (intro glr_abs_nonneg wf) (simp add: Math_abs_NaN_iff)
  then have "getLightRadius d tok (Math_abs x) \<noteq> NaN"
    using n_le_notNaN Math_abs_NaN_iff by blast
  moreover have "minR tok \<noteq> NaN"
    using minR_nonneg[OF wf(3,4)] n_le_notNaN by blast
  ultimately show ?thesis by (simp add: le_max2_iff n_le_refl)
qed

lemma getLightRadius_Fin:
  assumes "d_distance d = Fin k" "0 < k" "d_size d = Fin s" "t_w tok = Fin a"
  shows "getLightRadius d tok (Fin u) = Fin (if u = 0 then 0 else (\<bar>u\<bar> / k * s + a / 2) * sgn u)"
  using assms by (simp add: getLightRadius_def n_eq_def)

text \<open>
  C6. When the token has a numeric sight limit, or failing that the scene has one, the
  wrapper converts its absolute value with \<open>getLightRadius\<close>, raises the result to at
  least \<open>minR\<close>, and takes the lesser of it and each of the radii \<open>dim\<close> and
  \<open>bright\<close> it would have without a limit. In particular, in a scene whose maximal
  radius holds the radius of 30 units, a limit of 30 caps the bright radius of a sight
  of 120 to the radius of 30.
\<close>

theorem sightLimit_clamps_radii:
  assumes "wellFormed d tok" and "\<not> isNaN (sightLimitFlag tok)"
  shows "sightLimitFlag tok = (if isNaN (t_sightLimit tok) then t_sceneSightLimit tok
                               else t_sightLimit tok) \<and>
         r_sightLimit (resolveRadii d tok) =
           Math_max [getLightRadius d tok (Math_abs (sightLimitFlag tok)), minR tok] \<and>
         n_le (minR tok) (r_sightLimit (resolveRadii d tok)) \<and>
         r_dim (resolveRadii d tok) =
           Math_min [r_dim (resolveRadii d (tok\<lparr>t_sightLimit := NaN, t_sceneSightLimit := NaN\<rparr>)),
                     r_sightLimit (resolveRadii d tok)] \<and>
         r_bright (resolveRadii d tok) =
           Math_min [r_bright (resolveRadii d (tok\<lparr>t_sightLimit := NaN, t_sceneSightLimit := NaN\<rparr>)),
                     r_sightLimit (resolveRadii d tok)] \<and>
         n_le (r_dim (resolveRadii d tok)) (r_sightLimit (resolveRadii d tok)) \<and>
         n_le (r_bright (resolveRadii d tok)) (r_sightLimit (resolveRadii d tok)) \<and>
         (t_brightSight tok = Fin 120 \<and> sightLimitFlag tok = Fin 30 \<and>
          n_le (getLightRadius d tok (Fin 30)) (maxR d) \<longrightarrow>
            r_bright (resolveRadii d tok) = getLightRadius d tok (Fin 30))"
proof -
  let ?r = "resolveRadii d tok"
  let ?tok0 = "tok\<lparr>t_sightLimit := NaN, t_sceneSightLimit := NaN\<rparr>"
  have nan: "sightLimitFlag tok \<noteq> NaN"
    using assms(2) by (simp add: isNaN_def)
  have flag: "sightLimitFlag tok = (if isNaN (t_sightLimit tok) then t_sceneSightLimit tok
                               else t_sightLimit tok)"
    by (simp add: sightLimitFlag_def)
  have lim: "r_sightLimit ?r = max2 (getLightRadius d tok (Math_abs (sightLimitFlag tok))) (minR tok)"
    using assms(2) by (simp add: resolveRadii_sightLimit)
  have ge: "n_le (minR tok) (r_sightLimit ?r)"
    unfolding lim using assms(1) nan by (rule sightLimit_px_ge_minR)
  have lnan: "r_sightLimit ?r \<noteq> NaN"
    using ge n_le_notNaN by blast
  have glr0: "getLightRadius d ?tok0 x = getLightRadius d tok x" for x
    by (simp add: getLightRadius_def)
  have flag0: "sightLimitFlag ?tok0 = NaN"
    by (simp add: sightLimitFlag_def isNaN_def)
  have dim: "r_dim ?r = min2 (r_dim (resolveRadii d ?tok0)) (r_sightLimit ?r)"
    using assms(2) by (simp add: resolveRadii_dim lim flag0 glr0 isNaN_def)
  have bright: "r_bright ?r = min2 (r_bright (resolveRadii d ?tok0)) (r_sightLimit ?r)"
    using assms(2) by (simp add: resolveRadii_bright lim flag0 glr0 isNaN_def)
  have nn: "r_dim ?r \<noteq> NaN" "r_bright ?r \<noteq> NaN"
    using radii_nonneg[OF assms(1)] n_le_notNaN by blast+
  then have nn0: "r_dim (resolveRadii d ?tok0) \<noteq> NaN" "r_bright (resolveRadii d ?tok0) \<noteq> NaN"
    unfolding dim bright by (simp_all add: min2_NaN_iff)
  have le: "n_le (r_dim ?r) (r_sightLimit ?r)" "n_le (r_bright ?r) (r_sightLimit ?r)"
    unfolding dim bright using nn0 lnan by (simp_all add: min2_le_iff n_le_refl)
  have scen: "r_bright ?r = getLightRadius d tok (Fin 30)"
    if h: "t_brightSight tok = Fin 120 \<and> sightLimitFlag tok = Fin 30 \<and>
          n_le (getLightRadius d tok (Fin 30)) (maxR d)"
  proof -
    obtain k s a b where *: "d_distance d = Fin k" "0 < k" "d_size d = Fin s" "0 < s"
      "t_w tok = Fin a" "0 \<le> a" "t_h tok = Fin b" "0 \<le> b"
      using assms(1) positive_Fin nonNegative_Fin unfolding wellFormed_def by metis
    define p where "p = 30 / k * s"
    define q where "q = 120 / k * s"
    have "0 \<le> 30 / k * s"
      using *(2,4) by simp
    moreover have "30 / k * s \<le> 120 / k * s"
      using *(2,4) by (intro mult_right_mono divide_right_mono) simp_all
    ultimately have pq: "0 \<le> p" "p \<le> q"
      by (simp_all only: p_def q_def)
    have g30: "getLightRadius d tok (Fin 30) = Fin (p + a / 2)"
      using * by (simp add: getLightRadius_Fin p_def)
    have g120: "getLightRadius d tok (Fin 120) = Fin (q + a / 2)"
      using * by (simp add: getLightRadius_Fin q_def)
    have m: "minR tok = Fin (min a b / 2)"
      using * by (simp add: minR_def min2_def min_def)
    have "\<bar>q + a / 2\<bar> = q + a / 2"
      using pq *(6) by simp
    then show ?thesis
      using h pq *(6,8)
      by (cases "maxR d")
         (auto simp: resolveRadii_bright isNaN_def g30 g120 m min2_def max2_def)
  qed
  show ?thesis
    using flag lim ge dim bright le scen by (simp add: max2_NegInf min2_PosInf)
qed

theorem sightLimit_clamps_radii_witness:
  "wellFormed exampleScene (exampleToken\<lparr>t_brightSight := Fin 120, t_sightLimit := Fin 30\<rparr>) \<and>
   \<not> isNaN (sightLimitFlag (exampleToken\<lparr>t_brightSight := Fin 120, t_sightLimit := Fin 30\<rparr>)) \<and>
   t_brightSight (exampleToken\<lparr>t_brightSight := Fin 120, t_sightLimit := Fin 30\<rparr>) = Fin 120 \<and>
   sightLimitFlag (exampleToken\<lparr>t_brightSight := Fin 120, t_sightLimit := Fin 30\<rparr>) = Fin 30 \<and>
   n_le (getLightRadius exampleScene
           (exampleToken\<lparr>t_brightSight := Fin 120, t_sightLimit := Fin 30\<rparr>) (Fin 30))
        (maxR exampleScene) \<and>
   getLightRadius exampleScene
     (exampleToken\<lparr>t_brightSight := Fin 120, t_sightLimit := Fin 30\<rparr>) (Fin 30) = Fin 650 \<and>
   r_bright (resolveRadii exampleScene
     (exampleToken\<lparr>t_brightSight := Fin 120, t_sightLimit := Fin 30\<rparr>)) = Fin 650 \<and>
   n_le (r_dim (resolveRadii exampleScene
           (exampleToken\<lparr>t_brightSight := Fin 120, t_sightLimit := Fin 30\<rparr>)))
        (r_sightLimit (resolveRadii exampleScene
           (exampleToken\<lparr>t_brightSight := Fin 120, t_sightLimit := Fin 30\<rparr>)))"
proof -
  let ?tok = "exampleToken\<lparr>t_brightSight := Fin 120, t_sightLimit := Fin 30\<rparr>"
  have wf: "wellFormed exampleScene ?tok"
    by (simp add: wellFormed_def exampleScene_def exampleToken_def maxR_def)
  have flag: "sightLimitFlag ?tok = Fin 30"
    by (simp add: sightLimitFlag_def isNaN_def)
  then have nan: "\<not> isNaN (sightLimitFlag ?tok)"
    by (simp add: isNaN_def)
  have g: "getLightRadius exampleScene ?tok (Fin 30) = Fin 650"
    by (simp add: getLightRadius_def n_eq_def exampleScene_def exampleToken_def)
  have le: "n_le (getLightRadius exampleScene ?tok (Fin 30)) (maxR exampleScene)"
    unfolding g by (simp add: maxR_def exampleScene_def)
  have b: "t_brightSight ?tok = Fin 120"
    by simp
  note th = sightLimit_clamps_radii[OF wf nan]
  have "r_bright (resolveRadii exampleScene ?tok) = getLightRadius exampleScene ?tok (Fin 30)"
    using th b flag le by blast
  then have 1: "r_bright (resolveRadii exampleScene ?tok) = Fin 650"
    using g by simp
  have 2: "n_le (r_dim (resolveRadii exampleScene ?tok))
             (r_sightLimit (resolveRadii exampleScene ?tok))"
    using th by blast
  show ?thesis
    using wf nan flag g le b 1 2 by blast
qed

subsection \<open>Monotonicity\<close>

lemma min2_mono: "n_le a b \<Longrightarrow> c \<noteq> NaN \<Longrightarrow> n_le (min2 a c) (min2 b c)"
  by (cases a; cases b; cases c) (auto simp: min2_def)

lemma max2_mono: "n_le a b \<Longrightarrow> n_le c d \<Longrightarrow> n_le (max2 a c) (max2 b d)"
  by (cases a; cases b; cases c; cases d) (auto simp: max2_def)

lemma branch_mono: "n_le a b \<Longrightarrow> n_le (branch tag tags a) (branch tag tags b)"
  by (simp add: branch_def)

lemma visionRadius_mono:
  assumes "n_le (r_dim r) (r_dim r')" "n_le (r_bright r) (r_bright r')"
  shows "n_le (visionRadius rs r) (visionRadius rs r')"
  unfolding visionRadius_def Math_max.simps
  by (intro max2_mono branch_mono assms) simp

lemma abs_getLightRadius_mono:
  assumes "positive (d_distance d)" "positive (d_size d)" "nonNegative (t_w tok)"
    and "0 \<le> u" "u \<le> v"
  shows "n_le (Math_abs (getLightRadius d tok (Fin u))) (Math_abs (getLightRadius d tok (Fin v)))"
proof -
  obtain k s a where *: "d_distance d = Fin k" "0 < k" "d_size d = Fin s" "0 < s"
    "t_w tok = Fin a" "0 \<le> a"
    using assms(1-3) positive_Fin nonNegative_Fin by metis
  have "u / k * s \<le> v / k * s"
    using *(2,4) assms(5) by (intro mult_right_mono divide_right_mono) simp_all
  moreover have "0 \<le> u / k * s" "0 \<le> v / k * s"
    using *(2,4) assms(4,5) by simp_all
  ultimately show ?thesis
    using * assms(4,5) by (simp add: getLightRadius_Fin abs_mult sgn_if)
qed

lemma o_visionRadius_resolveWith:
  "o_visionRadius (resolveWith rs d tok) = visionRadius rs (resolveRadii d tok)"
  by (simp add: resolveWith_def Let_def)

lemma radii_mono:
  assumes wf: "wellFormed d tok" "wellFormed d tok'"
    and same: "t_w tok' = t_w tok" "t_h tok' = t_h tok" "sightLimitFlag tok' = sightLimitFlag tok"
    and dim: "n_le (Math_abs (getLightRadius d tok (t_dimSight tok)))
                (Math_abs (getLightRadius d tok' (t_dimSight tok')))"
    and bright: "n_le (Math_abs (getLightRadius d tok (t_brightSight tok)))
                (Math_abs (getLightRadius d tok' (t_brightSight tok')))"
  shows "n_le (r_dim (resolveRadii d tok)) (r_dim (resolveRadii d tok')) \<and>
         n_le (r_bright (resolveRadii d tok)) (r_bright (resolveRadii d tok'))"
proof -
  have M: "maxR d \<noteq> NaN"
    using wf(1) n_le_notNaN unfolding wellFormed_def by blast
  have glr: "getLightRadius d tok' x = getLightRadius d tok x" for x
    using same(1) by (simp add: getLightRadius_def)
  have minR: "minR tok' = minR tok"
    using same(1,2) by (simp add: minR_def)
  have S: "max2 (getLightRadius d tok (Math_abs (sightLimitFlag tok))) (minR tok) \<noteq> NaN"
    if "sightLimitFlag tok \<noteq> NaN"
    using sightLimit_px_ge_minR[OF wf(1) that] n_le_notNaN by blast
  show ?thesis
    using dim bright M S
    by (auto simp: resolveRadii_dim resolveRadii_bright same(3) glr minR isNaN_def
        intro!: min2_mono)
qed

text \<open>
  With the rule \<open>dim\<close> for dim vision, raising the dim sight value from -5 to 0
  lowers \<open>visionRadius\<close> from 150 to 0.
\<close>

theorem visionRadius_not_monotone_below_zero:
  "o_visionRadius (resolveWith exampleRules exampleScene (exampleToken\<lparr>t_dimSight := Fin (- 5)\<rparr>))
     = Fin 150 \<and>
   o_visionRadius (resolveWith exampleRules exampleScene (exampleToken\<lparr>t_dimSight := Fin 0\<rparr>))
     = Fin 0 \<and>
   \<not> n_le
     (o_visionRadius (resolveWith exampleRules exampleScene (exampleToken\<lparr>t_dimSight := Fin (- 5)\<rparr>)))
     (o_visionRadius (resolveWith exampleRules exampleScene (exampleToken\<lparr>t_dimSight := Fin 0\<rparr>)))"
  by (simp add: o_visionRadius_resolveWith visionRadius_def branch_def resolveRadii_dim
      resolveRadii_bright sightLimitFlag_def isNaN_def getLightRadius_def n_eq_def maxR_def
      min2_def max2_def example_defs)

text \<open>
  C7 (as amended). In a well-formed scene, with every other input fixed, raising a dim
  sight value that is not negative, or a bright sight value that is not negative, never
  lowers \<open>visionRadius\<close>.
\<close>

theorem visionRadius_monotone:
  assumes "wellFormed d tok" and "0 \<le> u" and "u \<le> v"
  shows "n_le (o_visionRadius (resolveWith rs d (tok\<lparr>t_dimSight := Fin u\<rparr>)))
              (o_visionRadius (resolveWith rs d (tok\<lparr>t_dimSight := Fin v\<rparr>))) \<and>
         n_le (o_visionRadius (resolveWith rs d (tok\<lparr>t_brightSight := Fin u\<rparr>)))
              (o_visionRadius (resolveWith rs d (tok\<lparr>t_brightSight := Fin v\<rparr>)))"
proof -
  have wf: "positive (d_distance d)" "positive (d_size d)" "nonNegative (t_w tok)"
    using assms(1) by (auto simp: wellFormed_def)
  have wfd: "wellFormed d (tok\<lparr>t_dimSight := Fin x\<rparr>)"
    and wfb: "wellFormed d (tok\<lparr>t_brightSight := Fin x\<rparr>)" for x
    using assms(1) by (simp_all add: wellFormed_def)
  have glr: "getLightRadius d (tok\<lparr>t_dimSight := Fin x\<rparr>) y = getLightRadius d tok y"
    "getLightRadius d (tok\<lparr>t_brightSight := Fin x\<rparr>) y = getLightRadius d tok y" for x y
    by (simp_all add: getLightRadius_def)
  have mono: "n_le (Math_abs (getLightRadius d tok (Fin u))) (Math_abs (getLightRadius d tok (Fin v)))"
    using wf assms(2,3) by (rule abs_getLightRadius_mono)
  have refl: "n_le (Math_abs (getLightRadius d tok x)) (Math_abs (getLightRadius d tok x))"
    if "x \<noteq> NaN" for x
    using glr_abs_nonneg[OF wf that] n_le_notNaN n_le_refl by blast
  have other: "t_dimSight tok \<noteq> NaN" "t_brightSight tok \<noteq> NaN"
    using assms(1) by (auto simp: wellFormed_def)
  have "n_le (r_dim (resolveRadii d (tok\<lparr>t_dimSight := Fin u\<rparr>)))
             (r_dim (resolveRadii d (tok\<lparr>t_dimSight := Fin v\<rparr>))) \<and>
        n_le (r_bright (resolveRadii d (tok\<lparr>t_dimSight := Fin u\<rparr>)))
             (r_bright (resolveRadii d (tok\<lparr>t_dimSight := Fin v\<rparr>)))"
    using mono refl[OF other(2)]
    by (intro radii_mono wfd) (simp_all add: glr sightLimitFlag_def Let_def)
  moreover have "n_le (r_dim (resolveRadii d (tok\<lparr>t_brightSight := Fin u\<rparr>)))
             (r_dim (resolveRadii d (tok\<lparr>t_brightSight := Fin v\<rparr>))) \<and>
        n_le (r_bright (resolveRadii d (tok\<lparr>t_brightSight := Fin u\<rparr>)))
             (r_bright (resolveRadii d (tok\<lparr>t_brightSight := Fin v\<rparr>)))"
    using mono refl[OF other(1)]
    by (intro radii_mono wfb) (simp_all add: glr sightLimitFlag_def Let_def)
  ultimately show ?thesis
    by (simp add: o_visionRadius_resolveWith visionRadius_mono)
qed

theorem visionRadius_monotone_witness:
  "wellFormed exampleScene exampleToken \<and> (0::real) \<le> 30 \<and> (30::real) \<le> 60 \<and>
   n_le (o_visionRadius (resolveWith exampleRules exampleScene (exampleToken\<lparr>t_dimSight := Fin 30\<rparr>)))
        (o_visionRadius (resolveWith exampleRules exampleScene (exampleToken\<lparr>t_dimSight := Fin 60\<rparr>))) \<and>
   n_le (o_visionRadius (resolveWith exampleRules exampleScene (exampleToken\<lparr>t_brightSight := Fin 30\<rparr>)))
        (o_visionRadius (resolveWith exampleRules exampleScene (exampleToken\<lparr>t_brightSight := Fin 60\<rparr>)))"
proof -
  have h: "(0::real) \<le> 30" "(30::real) \<le> 60"
    by simp_all
  show ?thesis
    using visionRadius_monotone[OF wellFormed_example h, of exampleRules] wellFormed_example h
    by blast
qed

subsection \<open>The cache of computeFov\<close>

text \<open>
  C5. A call of \<open>computeFov\<close> with a cache leaves the polygon it returns in the cache
  under the radius, so a second call with the same source, the same radius and that
  cache is a lookup: it returns the same polygon and the cache as it was given.
\<close>

theorem computeFov_memoized:
  "(let (fov, fovCache) = computeFov legacy d src radius (Some c)
    in cached fovCache radius = Some fov \<and>
       computeFov legacy d src radius fovCache = (fov, fovCache))"
proof (cases "c_entries c radius")
  case None
  then show ?thesis
    by (simp add: computeFov_def cached_def Let_def split_def)
next
  case (Some fov)
  then show ?thesis
    by (simp add: computeFov_def cached_def)
qed

subsection \<open>The radius zero and the full radius\<close>

lemma isFinite_Fin: "isFinite a \<Longrightarrow> \<exists>r. a = Fin r"
  by (cases a) auto

lemma clamped_Fin: "Math_clamped (Fin q) (Fin 0) (Fin 1) = Fin (min 1 (max q 0))"
  by (simp add: Math_clamped_def min2_def max2_def)

lemma clamped_one:
  assumes "positive distance" "n_le distance radius"
  shows "Math_clamped (n_div radius distance) (Fin 0) (Fin 1) = Fin 1"
proof -
  obtain k where k: "distance = Fin k" "0 < k"
    using assms(1) positive_Fin by blast
  show ?thesis
  proof (cases radius)
    case (Fin r)
    define q where "q = r / k"
    have "1 \<le> q"
      using assms(2) k Fin by (simp add: q_def)
    then have "min 1 (max q 0) = 1"
      by simp
    moreover have "n_div radius distance = Fin q"
      using Fin k by (simp add: q_def)
    ultimately show ?thesis
      by (simp only: clamped_Fin)
  qed (use assms(2) k in \<open>simp_all add: Math_clamped_def min2_def max2_def\<close>)
qed

lemma fovPoint_keep:
  assumes "s_x src = Fin x" "s_y src = Fin y" "0 < k"
  shows "fovPoint src (Fin k) (Fin 1) (Fin a, Fin b) = (Fin a, Fin b)"
  using assms
  by (simp add: fovPoint_def Ray_distance_def n_sub_def Math_clamped_def min2_def max2_def)

lemma fovLoop_keep:
  assumes "s_x src = Fin x" "s_y src = Fin y" "0 < k"
  shows "even (length ps) \<Longrightarrow> list_all isFinite ps \<Longrightarrow>
         flatten (fovLoop src (Fin k) (Fin 1) ps) = ps"
proof (induction ps rule: vertices.induct)
  case (1 px py ps)
  have "isFinite px" "isFinite py"
    using "1.prems"(2) by simp_all
  then obtain a b where "px = Fin a" "py = Fin b"
    using isFinite_Fin by blast
  then show ?case
    using 1 by (simp add: fovPoint_keep[OF assms])
next
  case (2 px)
  then show ?case by simp
next
  case 3
  then show ?case by simp
qed

lemma computeFov_miss_points:
  assumes "cached fovCache radius = None"
  shows "points (fst (computeFov legacy d src radius fovCache)) =
           (if n_lt (Fin 0) radius then
              flatten (fovLoop src (fovDistance d src fovCache)
                (Math_clamped (n_div radius (fovDistance d src fovCache)) (Fin 0) (Fin 1))
                (points (s_los src)))
            else [])"
  using assms by (simp add: computeFov_def Let_def)

lemma positive_le_lt: "positive distance \<Longrightarrow> n_le distance radius \<Longrightarrow> n_lt (Fin 0) radius"
  by (cases distance; cases radius) auto

lemma computeFov_hit:
  "cached fovCache radius = Some fov \<Longrightarrow>
   computeFov legacy d src radius fovCache = (fov, fovCache)"
  by (simp add: computeFov_def)

text \<open>
  C3 (as amended). When the cache holds a polygon for the radius, \<open>computeFov\<close>
  returns that polygon. When it holds none (or there is no cache), \<open>computeFov\<close>
  returns a polygon with no points for the radius zero; and for a well-formed source,
  when the radius is at least the distance \<open>computeFov\<close> uses, and that distance is
  positive, it returns a polygon with the coordinates of the unlimited line of sight,
  unchanged. The distance it uses is the memoized one, or else the greater of the
  source's own radius and the distance to the farthest corner of the scene.
\<close>

theorem computeFov_zero_and_full_radius:
  "(cached fovCache radius = Some fov \<longrightarrow>
      fst (computeFov legacy d src radius fovCache) = fov) \<and>
   (cachedDistance fovCache = None \<longrightarrow>
      fovDistance d src fovCache = Math_max [s_radius src, cornerDistance d src]) \<and>
   (cached fovCache radius = None \<and> radius = Fin 0 \<longrightarrow>
      points (fst (computeFov legacy d src radius fovCache)) = []) \<and>
   (cached fovCache radius = None \<and> wellFormedSource src \<and>
    positive (fovDistance d src fovCache) \<and> n_le (fovDistance d src fovCache) radius \<longrightarrow>
      points (fst (computeFov legacy d src radius fovCache)) = points (s_los src))"
proof (intro conjI impI)
  assume "cached fovCache radius = Some fov"
  then show "fst (computeFov legacy d src radius fovCache) = fov"
    by (simp add: computeFov_hit)
next
  assume "cachedDistance fovCache = None"
  then show "fovDistance d src fovCache = Math_max [s_radius src, cornerDistance d src]"
    by (simp add: fovDistance_def)
next
  assume z: "cached fovCache radius = None \<and> radius = Fin 0"
  then have m: "cached fovCache radius = None" and r: "\<not> n_lt (Fin 0) radius"
    by auto
  show "points (fst (computeFov legacy d src radius fovCache)) = []"
    using r by (simp add: computeFov_miss_points[OF m])
next
  assume h: "cached fovCache radius = None \<and> wellFormedSource src \<and>
    positive (fovDistance d src fovCache) \<and> n_le (fovDistance d src fovCache) radius"
  then have miss: "cached fovCache radius = None"
    by simp
  obtain k where k: "fovDistance d src fovCache = Fin k" "0 < k"
    using h positive_Fin by blast
  obtain x y where xy: "s_x src = Fin x" "s_y src = Fin y"
    using h isFinite_Fin unfolding wellFormedSource_def by blast
  have ps: "even (length (points (s_los src)))" "list_all isFinite (points (s_los src))"
    using h by (simp_all add: wellFormedSource_def)
  have pos: "n_lt (Fin 0) radius"
    using h positive_le_lt by blast
  have lim: "Math_clamped (n_div radius (fovDistance d src fovCache)) (Fin 0) (Fin 1) = Fin 1"
    using h clamped_one by blast
  have "flatten (fovLoop src (Fin k) (Fin 1) (points (s_los src))) = points (s_los src)"
    using xy k(2) ps by (rule fovLoop_keep)
  then show "points (fst (computeFov legacy d src radius fovCache)) = points (s_los src)"
    using pos lim by (simp add: computeFov_miss_points[OF miss] k(1))
qed

lemma sqrt_25000000: "sqrt 25000000 = 5000"
  by (rule real_sqrt_unique) simp_all

lemma fovDistance_example: "fovDistance exampleScene exampleSource None = Fin 5000"
  by (simp add: fovDistance_def cornerDistance_def cachedDistance_def exampleScene_def
      exampleSource_def n_sub_def max2_def sqrt_25000000)

lemma wellFormedSource_example: "wellFormedSource exampleSource"
  by (simp add: wellFormedSource_def exampleSource_def)

lemma sqrt_36000000: "sqrt 36000000 = 6000"
  by (rule real_sqrt_unique) simp_all

lemma sqrt_10000: "sqrt 10000 = 100"
  by (rule real_sqrt_unique) simp_all

lemma cornerDistance_example:
  "cornerDistance exampleScene (exampleSource\<lparr>s_radius := Fin 10000\<rparr>) = Fin 5000"
  by (simp add: cornerDistance_def exampleScene_def exampleSource_def n_sub_def max2_def
      sqrt_25000000)

text \<open>
  A source whose own radius, 10000, is greater than the distance to the farthest corner,
  5000: at the radius 5000 the vertex at 6000 is drawn in to 5000. And a cache that
  holds a polygon under the radius zero: that polygon is returned, points and all.
\<close>

theorem computeFov_clips_at_corner_distance:
  "n_le (cornerDistance exampleScene (exampleSource\<lparr>s_radius := Fin 10000\<rparr>)) (Fin 5000) \<and>
   points (fst (computeFov False exampleScene (exampleSource\<lparr>s_radius := Fin 10000\<rparr>)
     (Fin 5000) None)) = [Fin 5000, Fin 0, Fin 0, Fin 100] \<and>
   points (s_los (exampleSource\<lparr>s_radius := Fin 10000\<rparr>)) =
     [Fin 6000, Fin 0, Fin 0, Fin 100] \<and>
   points (fst (computeFov False exampleScene exampleSource (Fin 0)
     (Some \<lparr>c_entries = (\<lambda>k. if k = Fin 0 then Some (Polygon [Fin 1, Fin 1]) else None),
            c_distance = None\<rparr>))) = [Fin 1, Fin 1]"
proof -
  let ?src = "exampleSource\<lparr>s_radius := Fin 10000\<rparr>"
  have dist: "fovDistance exampleScene ?src None = Fin 10000"
    by (simp add: fovDistance_def cachedDistance_def cornerDistance_example max2_def)
  have "points (fst (computeFov False exampleScene ?src (Fin 5000) None)) =
          flatten (fovLoop ?src (Fin 10000) (Fin (1 / 2)) (points (s_los ?src)))"
    by (simp add: computeFov_miss_points cached_def dist clamped_Fin)
  then have 1: "points (fst (computeFov False exampleScene ?src (Fin 5000) None)) =
          [Fin 5000, Fin 0, Fin 0, Fin 100]"
    by (simp add: exampleSource_def fovPoint_def Ray_distance_def Ray_project_def n_sub_def
        clamped_Fin sqrt_36000000 sqrt_10000)
  have 2: "points (s_los ?src) = [Fin 6000, Fin 0, Fin 0, Fin 100]"
    by (simp add: exampleSource_def)
  have 3: "points (fst (computeFov False exampleScene exampleSource (Fin 0)
     (Some \<lparr>c_entries = (\<lambda>k. if k = Fin 0 then Some (Polygon [Fin 1, Fin 1]) else None),
            c_distance = None\<rparr>))) = [Fin 1, Fin 1]"
    by (simp add: computeFov_def cached_def)
  show ?thesis
    using 1 2 3 by (simp add: cornerDistance_example)
qed

theorem computeFov_zero_and_full_radius_witness:
  "cached None (Fin 0) = None \<and>
   points (fst (computeFov False exampleScene exampleSource (Fin 0) None)) = [] \<and>
   cachedDistance None = None \<and>
   fovDistance exampleScene exampleSource None =
     Math_max [s_radius exampleSource, cornerDistance exampleScene exampleSource] \<and>
   cached None (Fin 5000) = None \<and> wellFormedSource exampleSource \<and>
   positive (fovDistance exampleScene exampleSource None) \<and>
   n_le (fovDistance exampleScene exampleSource None) (Fin 5000) \<and>
   points (fst (computeFov False exampleScene exampleSource (Fin 5000) None)) =
     points (s_los exampleSource) \<and>
   cached (Some \<lparr>c_entries = (\<lambda>k. if k = Fin 0 then Some (Polygon [Fin 1, Fin 1]) else None),
                 c_distance = None\<rparr>) (Fin 0) = Some (Polygon [Fin 1, Fin 1]) \<and>
   fst (computeFov False exampleScene exampleSource (Fin 0)
     (Some \<lparr>c_entries = (\<lambda>k. if k = Fin 0 then Some (Polygon [Fin 1, Fin 1]) else None),
            c_distance = None\<rparr>)) = Polygon [Fin 1, Fin 1]"
proof -
  let ?c = "Some \<lparr>c_entries = (\<lambda>k. if k = Fin 0 then Some (Polygon [Fin 1, Fin 1]) else None),
            c_distance = None\<rparr>"
  have c: "cached None r = None" for r
    by (simp add: cached_def)
  have cd: "cachedDistance None = None"
    by (simp add: cachedDistance_def)
  have hit: "cached ?c (Fin 0) = Some (Polygon [Fin 1, Fin 1])"
    by (simp add: cached_def)
  have p: "positive (fovDistance exampleScene exampleSource None)"
    "n_le (fovDistance exampleScene exampleSource None) (Fin 5000)"
    by (simp_all add: fovDistance_example)
  show ?thesis
    using computeFov_zero_and_full_radius
            [of None "Fin 0" "Polygon []" False exampleScene exampleSource]
      computeFov_zero_and_full_radius
            [of None "Fin 5000" "Polygon []" False exampleScene exampleSource]
      computeFov_zero_and_full_radius
            [of ?c "Fin 0" "Polygon [Fin 1, Fin 1]" False exampleScene exampleSource]
      c cd hit wellFormedSource_example p
    by blast
qed

subsection \<open>Clipping\<close>

lemma vertices_flatten: "vertices (flatten qs) = qs"
  by (induction qs rule: flatten.induct) simp_all

lemma limit_range:
  assumes "positive distance" "n_lt (Fin 0) radius"
  shows "\<exists>l. Math_clamped (n_div radius distance) (Fin 0) (Fin 1) = Fin l \<and> 0 < l \<and> l \<le> 1"
proof -
  obtain k where k: "distance = Fin k" "0 < k"
    using assms(1) positive_Fin by blast
  show ?thesis
  proof (cases radius)
    case (Fin r)
    define q where "q = r / k"
    have "0 < q"
      using assms(2) k Fin by (simp add: q_def)
    then have "0 < min 1 (max q 0)" "min 1 (max q 0) \<le> 1"
      by simp_all
    moreover have "n_div radius distance = Fin q"
      using Fin k by (simp add: q_def)
    ultimately show ?thesis
      by (simp only: clamped_Fin) blast
  qed (use assms(2) k in \<open>simp_all add: Math_clamped_def min2_def max2_def\<close>)
qed

lemma sqrt_scale:
  assumes "0 \<le> (t::real)"
  shows "sqrt (t * dx * (t * dx) + t * dy * (t * dy)) = t * sqrt (dx * dx + dy * dy)"
proof -
  have "t * dx * (t * dx) + t * dy * (t * dy) = t\<^sup>2 * (dx * dx + dy * dy)"
    by (simp add: power2_eq_square algebra_simps)
  then show ?thesis
    using assms by (simp add: real_sqrt_mult)
qed

lemma fovPoint_rel:
  assumes "s_x src = Fin x" "s_y src = Fin y" "0 < k" "0 < l" "l \<le> 1"
  shows "(fovPoint src (Fin k) (Fin l) (Fin a, Fin b) = (Fin a, Fin b) \<or>
          (\<exists>t. 0 \<le> t \<and> t < 1 \<and>
             fovPoint src (Fin k) (Fin l) (Fin a, Fin b) =
               Ray_project (s_x src, s_y src) (Fin a, Fin b) (Fin t))) \<and>
         n_le (Ray_distance (s_x src, s_y src) (fovPoint src (Fin k) (Fin l) (Fin a, Fin b)))
              (Ray_distance (s_x src, s_y src) (Fin a, Fin b))"
proof -
  define rd where "rd = sqrt ((a - x) * (a - x) + (b - y) * (b - y))"
  define t0 where "t0 = min 1 (max (rd / k) 0)"
  have rd: "Ray_distance (s_x src, s_y src) (Fin a, Fin b) = Fin rd"
    using assms(1,2) by (simp add: Ray_distance_def n_sub_def rd_def)
  have rd0: "0 \<le> rd"
    by (simp add: rd_def)
  have t0: "Math_clamped (n_div (Fin rd) (Fin k)) (Fin 0) (Fin 1) = Fin t0"
    using assms(3) by (simp add: clamped_Fin t0_def)
  have fp: "fovPoint src (Fin k) (Fin l) (Fin a, Fin b) =
              (if t0 \<le> l then (Fin a, Fin b)
               else Ray_project (s_x src, s_y src) (Fin a, Fin b) (n_div (Fin l) (Fin t0)))"
    by (simp only: fovPoint_def rd t0 Let_def n_le.simps)
  show ?thesis
  proof (cases "t0 \<le> l")
    case True
    then have "fovPoint src (Fin k) (Fin l) (Fin a, Fin b) = (Fin a, Fin b)"
      by (simp add: fp)
    then show ?thesis
      by (simp add: rd)
  next
    case False
    define t where "t = l / t0"
    have t0pos: "0 < t0" "l < t0"
      using False assms(4) by simp_all
    then have t: "0 \<le> t" "t < 1"
      using assms(4) by (simp_all add: t_def)
    have q: "fovPoint src (Fin k) (Fin l) (Fin a, Fin b) =
               Ray_project (s_x src, s_y src) (Fin a, Fin b) (Fin t)"
      using False t0pos by (simp add: fp t_def)
    have "Ray_distance (s_x src, s_y src) (Ray_project (s_x src, s_y src) (Fin a, Fin b) (Fin t))
            = Fin (sqrt (t * (a - x) * (t * (a - x)) + t * (b - y) * (t * (b - y))))"
      using assms(1,2) by (simp add: Ray_distance_def Ray_project_def n_sub_def)
    also have "\<dots> = Fin (t * rd)"
      using t(1) by (simp only: sqrt_scale rd_def)
    finally have "Ray_distance (s_x src, s_y src)
        (Ray_project (s_x src, s_y src) (Fin a, Fin b) (Fin t)) = Fin (t * rd)" .
    moreover have "t * rd \<le> rd"
      using t rd0 by (simp add: mult_left_le_one_le)
    ultimately show ?thesis
      using q t by (auto simp: rd)
  qed
qed

lemma fovLoop_rel:
  assumes "s_x src = Fin x" "s_y src = Fin y" "0 < k" "0 < l" "l \<le> 1"
  shows "even (length ps) \<Longrightarrow> list_all isFinite ps \<Longrightarrow>
         list_all2
           (\<lambda>q p. (q = p \<or>
                    (\<exists>t. 0 \<le> t \<and> t < 1 \<and> q = Ray_project (s_x src, s_y src) p (Fin t))) \<and>
                   n_le (Ray_distance (s_x src, s_y src) q) (Ray_distance (s_x src, s_y src) p))
           (fovLoop src (Fin k) (Fin l) ps) (vertices ps)"
proof (induction ps rule: vertices.induct)
  case (1 px py ps)
  have "isFinite px" "isFinite py"
    using "1.prems"(2) by simp_all
  then obtain a b where "px = Fin a" "py = Fin b"
    using isFinite_Fin by blast
  then show ?case
    using 1 fovPoint_rel[OF assms, of a b] by simp
next
  case (2 px)
  then show ?case by simp
next
  case 3
  then show ?case by simp
qed

text \<open>
  C4. When the cache has no polygon for the radius (or there is no cache), the source
  is well-formed and the distance, memoized or computed, is positive: for a radius
  that is not greater than zero the polygon \<open>computeFov\<close> returns has no vertex, and
  otherwise each of its vertices is the vertex of the unlimited line of sight at the
  same place, or that vertex projected along its ray from the origin by a factor from 0
  up to, but not, 1; in both cases it is no farther from the origin.
\<close>

theorem computeFov_no_farther:
  assumes "cached fovCache radius = None" and "wellFormedSource src"
    and "positive (fovDistance d src fovCache)"
  shows "if n_lt (Fin 0) radius then
           list_all2
             (\<lambda>q p. (q = p \<or>
                      (\<exists>t. 0 \<le> t \<and> t < 1 \<and> q = Ray_project (s_x src, s_y src) p (Fin t))) \<and>
                     n_le (Ray_distance (s_x src, s_y src) q)
                          (Ray_distance (s_x src, s_y src) p))
             (vertices (points (fst (computeFov legacy d src radius fovCache))))
             (vertices (points (s_los src)))
         else points (fst (computeFov legacy d src radius fovCache)) = []"
proof (cases "n_lt (Fin 0) radius")
  case True
  obtain k where k: "fovDistance d src fovCache = Fin k" "0 < k"
    using assms(3) positive_Fin by blast
  obtain x y where xy: "s_x src = Fin x" "s_y src = Fin y"
    using assms(2) isFinite_Fin unfolding wellFormedSource_def by blast
  have ps: "even (length (points (s_los src)))" "list_all isFinite (points (s_los src))"
    using assms(2) by (simp_all add: wellFormedSource_def)
  obtain l where l: "Math_clamped (n_div radius (fovDistance d src fovCache)) (Fin 0) (Fin 1) = Fin l"
    "0 < l" "l \<le> 1"
    using limit_range[OF assms(3) True] by blast
  have pts: "points (fst (computeFov legacy d src radius fovCache)) =
               flatten (fovLoop src (Fin k) (Fin l) (points (s_los src)))"
    using True l(1) by (simp add: computeFov_miss_points[OF assms(1)] k(1))
  show ?thesis
    using True fovLoop_rel[OF xy k(2) l(2,3) ps]
    by (simp only: pts vertices_flatten if_True)
next
  case False
  then show ?thesis
    by (simp add: computeFov_miss_points[OF assms(1)])
qed

theorem computeFov_no_farther_witness:
  "cached None (Fin 2500) = None \<and> wellFormedSource exampleSource \<and>
   positive (fovDistance exampleScene exampleSource None) \<and>
   n_lt (Fin 0) (Fin 2500) \<and>
   list_all2
     (\<lambda>q p. (q = p \<or>
              (\<exists>t. 0 \<le> t \<and> t < 1 \<and>
                 q = Ray_project (s_x exampleSource, s_y exampleSource) p (Fin t))) \<and>
             n_le (Ray_distance (s_x exampleSource, s_y exampleSource) q)
                  (Ray_distance (s_x exampleSource, s_y exampleSource) p))
     (vertices (points (fst (computeFov False exampleScene exampleSource (Fin 2500) None))))
     (vertices (points (s_los exampleSource)))"
proof -
  have c: "cached None (Fin 2500) = None"
    by (simp add: cached_def)
  have p: "positive (fovDistance exampleScene exampleSource None)"
    by (simp add: fovDistance_example)
  have r: "n_lt (Fin 0) (Fin 2500)"
    by simp
  show ?thesis
    using computeFov_no_farther[OF c wellFormedSource_example p, of False] c
      wellFormedSource_example p r
    by (simp only: if_True simp_thms)
qed

subsection \<open>The program on the examples\<close>

text \<open>
  A dim sight of 60 units in the example scene, of 5 units and 100 pixels to the grid
  square, is a radius of 12 squares and half the token: 1250 pixels.
\<close>

lemma getLightRadius_example: "getLightRadius exampleScene exampleToken (Fin 60) = Fin 1250"
  by (simp add: getLightRadius_def n_eq_def exampleScene_def exampleToken_def)

text \<open>
  At half the distance the far vertex is drawn in to the radius and the near one is
  kept.
\<close>

lemma computeFov_example:
  "computeFov False exampleScene exampleSource (Fin 2500) None =
     (SourcePolygon (Fin 0) (Fin 0) (Fin 2500) [Fin 3000, Fin 0, Fin 0, Fin 100], None)"
proof -
  have "computeFov False exampleScene exampleSource (Fin 2500) None =
          (SourcePolygon (s_x exampleSource) (s_y exampleSource) (Fin 2500)
             (flatten (fovLoop exampleSource (Fin 5000) (Fin (1 / 2))
               (points (s_los exampleSource)))), None)"
    by (simp add: computeFov_def cached_def fovDistance_example Let_def clamped_Fin)
  then show ?thesis
    by (simp add: exampleSource_def fovPoint_def Ray_distance_def Ray_project_def n_sub_def
        clamped_Fin sqrt_36000000 sqrt_10000)
qed

text \<open>The field of view of the source is computed for the radius \<open>fovRadius\<close>.\<close>

lemma initializeFov_fov:
  "f_fov (initializeFov legacy d src tok out) =
     fst (computeFov legacy d src (fovRadius out)
       (Some \<lparr>c_entries = (\<lambda>k. if k = s_radius src then s_fov src else None),
              c_distance = None\<rparr>))"
  by (simp add: initializeFov_def Let_def split_def)

end
